theory Spec2Isabelle
  imports Main "HOL-Library.Word"
begin

unbundle bit_operations_syntax

section \<open>Bytes, buffers and return codes\<close>

text \<open>
  The handler \<^verbatim>\<open>ha_ldb\<close> (files \<^verbatim>\<open>ha_ldb.h\<close>, \<^verbatim>\<open>ha_ldb.cc\<close>) binds the row
  callbacks of the SQL host to one LevelDB database per table.  Row buffers, search keys,
  LevelDB keys and LevelDB values are byte strings.  A \<^verbatim>\<open>uchar *\<close> argument is modelled
  by the byte list it points to; reading or writing past its end is undefined in C and is a
  \<open>fault\<close> here.
\<close>

type_synonym byte = "8 word"
type_synonym bytes = "byte list"

datatype fault =
  NullPointer       \<comment> \<open>a null pointer is dereferenced\<close>
| DanglingPointer   \<comment> \<open>a freed share is dereferenced\<close>
| OutOfBounds       \<comment> \<open>a buffer is read or written past its end\<close>

text \<open>\<^verbatim>\<open>std::string::append(p + start, n)\<close>: the \<open>n\<close> bytes from \<open>start\<close>.\<close>

definition mem_read :: "bytes \<Rightarrow> nat \<Rightarrow> nat \<Rightarrow> bytes option" where
  "mem_read buf start n =
     (if start + n \<le> length buf then Some (take n (drop start buf)) else None)"

text \<open>\<^verbatim>\<open>memcpy(buf, src, src.length())\<close>: the first bytes of \<open>buf\<close> are overwritten.\<close>

definition mem_write :: "bytes \<Rightarrow> bytes \<Rightarrow> bytes option" where
  "mem_write buf src =
     (if length src \<le> length buf then Some (src @ drop (length src) buf) else None)"

text \<open>Return codes and constants of the host headers (\<^verbatim>\<open>my_base.h\<close>, \<^verbatim>\<open>fcntl.h\<close>,
  \<^verbatim>\<open>table.h\<close>).\<close>

definition HA_ERR_WRONG_INDEX :: int where "HA_ERR_WRONG_INDEX = 124"
definition HA_ERR_WRONG_COMMAND :: int where "HA_ERR_WRONG_COMMAND = 131"
definition HA_ERR_END_OF_FILE :: int where "HA_ERR_END_OF_FILE = 137"
definition STATUS_NOT_FOUND :: int where "STATUS_NOT_FOUND = 2"
definition F_UNLCK :: int where "F_UNLCK = 2"
definition HA_VAR_LENGTH_PART :: "16 word" where "HA_VAR_LENGTH_PART = 8"

section \<open>The LevelDB interface\<close>

text \<open>
  LevelDB is a library outside this repository.  Its documented contract is all the
  handler relies on: a database is a finite map from keys to values stored under a path;
  \<^verbatim>\<open>DB::Open\<close> opens the database at a path and creates it when it is missing and
  \<^verbatim>\<open>create_if_missing\<close> is set; \<^verbatim>\<open>DB::Get\<close> returns the value of a key or a not-found
  status; \<^verbatim>\<open>DB::Write\<close> applies the operations of a \<^verbatim>\<open>WriteBatch\<close> in order, all or
  none.  Whether the environment lets an \<^verbatim>\<open>Open\<close> or a \<^verbatim>\<open>Write\<close> go through is an
  input of the model (\<open>io_ok\<close>).  A database handle (\<^verbatim>\<open>leveldb::DB*\<close>) is modelled by
  the path it was opened on, \<open>None\<close> being the null pointer.
\<close>

type_synonym kv = "bytes \<rightharpoonup> bytes"
type_synonym disk = "string \<rightharpoonup> kv"

datatype batch_op = Put bytes bytes | Delete bytes

fun apply_op :: "kv \<Rightarrow> batch_op \<Rightarrow> kv" where
  "apply_op m (Put k v) = m(k \<mapsto> v)"
| "apply_op m (Delete k) = m(k := None)"

definition apply_batch :: "batch_op list \<Rightarrow> kv \<Rightarrow> kv" where
  "apply_batch ops m = foldl apply_op m ops"

fun op_key :: "batch_op \<Rightarrow> bytes" where
  "op_key (Put k v) = k"
| "op_key (Delete k) = k"

definition DB_Open :: "bool \<Rightarrow> bool \<Rightarrow> string \<Rightarrow> disk \<Rightarrow> bool \<times> string option \<times> disk" where
  "DB_Open io_ok create_if_missing path d =
     (if \<not> io_ok then (False, None, d)
      else (case d path of
              Some m \<Rightarrow> (True, Some path, d)
            | None \<Rightarrow> (if create_if_missing then (True, Some path, d(path \<mapsto> Map.empty))
                       else (False, None, d))))"

definition DB_Get :: "disk \<Rightarrow> string \<Rightarrow> bytes \<Rightarrow> bytes option" where
  "DB_Get d path k = (case d path of None \<Rightarrow> None | Some m \<Rightarrow> m k)"

definition DB_Write :: "bool \<Rightarrow> string \<Rightarrow> batch_op list \<Rightarrow> disk \<Rightarrow> bool \<times> disk" where
  "DB_Write io_ok path ops d =
     (case d path of
        None \<Rightarrow> (False, d)
      | Some m \<Rightarrow> (if io_ok then (True, d(path \<mapsto> apply_batch ops m)) else (False, d)))"

text \<open>The calls into LevelDB that open, write, close or destroy a database are recorded,
  with the options they were given, in the order they are made.\<close>

datatype ldb_call =
  Call_Open string bool nat          \<comment> \<open>path, \<^verbatim>\<open>create_if_missing\<close>, \<^verbatim>\<open>write_buffer_size\<close>\<close>
| Call_Write string bool "batch_op list"   \<comment> \<open>database, \<^verbatim>\<open>sync\<close>, the batch\<close>
| Call_Close "string option"         \<comment> \<open>\<^verbatim>\<open>delete db\<close>\<close>
| Call_Destroy string                \<comment> \<open>\<^verbatim>\<open>DestroyDB\<close>\<close>

fun is_write :: "ldb_call \<Rightarrow> bool" where
  "is_write (Call_Write p s b) = True"
| "is_write c = False"

section \<open>The handler's data\<close>

text \<open>\<^verbatim>\<open>enum ha_base_keytype\<close> of the host, the type of a key part.\<close>

datatype ha_base_keytype =
  HA_KEYTYPE_END | HA_KEYTYPE_TEXT | HA_KEYTYPE_BINARY | HA_KEYTYPE_SHORT_INT
| HA_KEYTYPE_LONG_INT | HA_KEYTYPE_FLOAT | HA_KEYTYPE_DOUBLE | HA_KEYTYPE_NUM
| HA_KEYTYPE_USHORT_INT | HA_KEYTYPE_ULONG_INT | HA_KEYTYPE_LONGLONG
| HA_KEYTYPE_ULONGLONG | HA_KEYTYPE_INT24 | HA_KEYTYPE_UINT24 | HA_KEYTYPE_INT8
| HA_KEYTYPE_VARTEXT1 | HA_KEYTYPE_VARBINARY1 | HA_KEYTYPE_VARTEXT2
| HA_KEYTYPE_VARBINARY2 | HA_KEYTYPE_BIT

text \<open>\<^verbatim>\<open>KEY_PART_INFO\<close>: the fields of \<^verbatim>\<open>table->key_info[0].key_part[0]\<close> that the
  handler reads.\<close>

record KEY_PART_INFO =
  kp_offset :: nat
  kp_length :: nat
  kp_flag :: "16 word"
  kp_type :: ha_base_keytype

text \<open>\<^verbatim>\<open>TABLE\<close>: the first key part, \<^verbatim>\<open>s->rec_buff_length\<close>, \<^verbatim>\<open>s->key_parts\<close>,
  \<^verbatim>\<open>s->uniques\<close> and \<^verbatim>\<open>status\<close>.\<close>

record TABLE =
  key_part :: KEY_PART_INFO
  rec_buff_length :: nat
  key_parts :: nat
  uniques :: nat
  status :: int

text \<open>\<^verbatim>\<open>LEVELDB_SHARE\<close>, shared by the handlers that have one table open.\<close>

record LEVELDB_SHARE =
  table_name :: string
  table_name_length :: nat
  use_count :: "32 word"
  db :: "string option"

text \<open>\<^verbatim>\<open>trx_t\<close>: the handler that created the scope and the pending batch.\<close>

record trx_t =
  pobj :: nat
  batch :: "batch_op list"

text \<open>The members of a \<^verbatim>\<open>ha_ldb\<close> object: the pointer to its share (an address in
  \<open>heap\<close>), \<^verbatim>\<open>dbpath\<close> and the host's \<^verbatim>\<open>table\<close>.\<close>

record ha_ldb =
  share :: "nat option"
  dbpath :: string
  table :: TABLE

text \<open>
  The state of the process: the hash \<^verbatim>\<open>ldb_open_tables\<close> (the addresses of the
  registered shares, in insertion order), the collation \<^verbatim>\<open>system_charset_info\<close> the hash
  was created with, the allocated shares, the handler objects (owned by the host, named by
  a number), the per-session slot \<^verbatim>\<open>thd_get_ha_data(thd, ldb_hton)\<close>, the global
  write option \<^verbatim>\<open>wo.sync\<close>, \<^verbatim>\<open>my_errno\<close>, the databases on disk and the record of
  LevelDB calls.
  A collation is given by its weights: two names are the same key of the hash when their
  weights are equal (the identity for a binary collation, case folding for a
  case-insensitive one).  The mutexes and the table lock data are not part of it.
\<close>

record world =
  ldb_open_tables :: "nat list"
  system_charset_info :: "string \<Rightarrow> string"
  heap :: "nat \<rightharpoonup> LEVELDB_SHARE"
  handlers :: "nat \<Rightarrow> ha_ldb"
  ha_data :: "nat \<Rightarrow> trx_t option"
  wo_sync :: bool
  my_errno :: int
  disk :: disk
  ldb_log :: "ldb_call list"

text \<open>The process at start-up: no share, no scope, \<^verbatim>\<open>wo\<close> default-constructed
  (\<^verbatim>\<open>sync = false\<close>); the host's collation, its table descriptions and the disk are
  given.\<close>

definition init_world :: "(string \<Rightarrow> string) \<Rightarrow> (nat \<Rightarrow> TABLE) \<Rightarrow> disk \<Rightarrow> world" where
  "init_world cs tbls d =
     \<lparr> ldb_open_tables = [], system_charset_info = cs, heap = Map.empty,
       handlers = (\<lambda>h. \<lparr> share = None, dbpath = [], table = tbls h \<rparr>),
       ha_data = (\<lambda>t. None), wo_sync = False, my_errno = 0, disk = d, ldb_log = [] \<rparr>"

section \<open>The share registry\<close>

text \<open>\<^verbatim>\<open>leveldb_open\<close>: sets the global options, opens the database and sets
  \<^verbatim>\<open>wo.sync\<close>.  The result is the status (\<open>True\<close> for ok), the handle and the state.\<close>

definition leveldb_open :: "string \<Rightarrow> bool \<Rightarrow> bool \<Rightarrow> world \<Rightarrow> bool \<times> string option \<times> world" where
  "leveldb_open name create_if_missing io_ok w =
     (case DB_Open io_ok create_if_missing name (disk w) of
        (st, dbh, d') \<Rightarrow>
          (st, dbh, w\<lparr> disk := d', wo_sync := True,
                       ldb_log := ldb_log w @ [Call_Open name create_if_missing 33554432] \<rparr>))"

text \<open>
  \<^verbatim>\<open>my_hash_search\<close> on \<^verbatim>\<open>ldb_open_tables\<close>: the first registered share whose name
  is the key under the collation \<open>cs\<close> of the hash.  The hash holds pointers and reads
  the name through them, so an entry whose share has been freed is a fault.
\<close>

fun my_hash_search :: "(string \<Rightarrow> string) \<Rightarrow> (nat \<rightharpoonup> LEVELDB_SHARE) \<Rightarrow> nat list \<Rightarrow> string \<Rightarrow> fault + nat option" where
  "my_hash_search cs hp [] name = Inr None"
| "my_hash_search cs hp (a # as) name =
     (case hp a of
        None \<Rightarrow> Inl DanglingPointer
      | Some sh \<Rightarrow> (if cs (table_name sh) = cs name then Inr (Some a)
                   else my_hash_search cs hp as name))"

text \<open>
  \<^verbatim>\<open>get_share\<close>.  The environment's answers are inputs: the block \<^verbatim>\<open>my_multi_malloc\<close>
  returns (\<open>None\<close> when it fails; the allocator may hand out any address that is not
  allocated, also one freed before), whether the \<^verbatim>\<open>DB::Open\<close> goes through, whether
  \<^verbatim>\<open>my_hash_insert\<close> succeeds.  The result is the share pointer (\<open>None\<close> for
  \<^verbatim>\<open>NULL\<close>).  The status of \<^verbatim>\<open>leveldb_open\<close> is assigned to a local variable and not
  read again.  When the insert fails the block is freed again.
\<close>

definition get_share :: "string \<Rightarrow> nat option \<Rightarrow> bool \<Rightarrow> bool \<Rightarrow> world \<Rightarrow> fault + (nat option \<times> world)" where
  "get_share name malloc io_ok insert_ok w =
     (case my_hash_search (system_charset_info w) (heap w) (ldb_open_tables w) name of
        Inl f \<Rightarrow> Inl f
      | Inr (Some a) \<Rightarrow>
          (case heap w a of
             None \<Rightarrow> Inl DanglingPointer
           | Some sh \<Rightarrow>
               Inr (Some a, w\<lparr> heap := (heap w)(a \<mapsto> sh\<lparr> use_count := use_count sh + 1 \<rparr>) \<rparr>))
      | Inr None \<Rightarrow>
          (case malloc of
             None \<Rightarrow> Inr (None, w)
           | Some a \<Rightarrow>
               (case leveldb_open name False io_ok w of
                  (s, dbh, w1) \<Rightarrow>
                    (let sh = \<lparr> table_name = name, table_name_length = length name,
                                use_count = 0, db = dbh \<rparr>
                     in if \<not> insert_ok then Inr (None, w1)
                        else Inr (Some a,
                               w1\<lparr> ldb_open_tables := ldb_open_tables w1 @ [a],
                                   heap := (heap w1)(a \<mapsto> sh\<lparr> use_count := use_count sh + 1 \<rparr>) \<rparr>)))))"

text \<open>\<^verbatim>\<open>free_share\<close>: the last reference closes the database, takes the share out of
  the hash and frees it.\<close>

definition free_share :: "nat \<Rightarrow> world \<Rightarrow> fault + (int \<times> world)" where
  "free_share a w =
     (case heap w a of
        None \<Rightarrow> Inl DanglingPointer
      | Some sh \<Rightarrow>
          (let c = use_count sh - 1 in
           if c = 0
           then Inr (0, w\<lparr> ldb_log := ldb_log w @ [Call_Close (db sh)],
                           ldb_open_tables := removeAll a (ldb_open_tables w),
                           heap := (heap w)(a := None) \<rparr>)
           else Inr (0, w\<lparr> heap := (heap w)(a \<mapsto> sh\<lparr> use_count := c \<rparr>) \<rparr>)))"

text \<open>\<^verbatim>\<open>free_trx\<close>: deletes the scope (the one given, or the session's) and clears the
  session's slot.\<close>

definition free_trx :: "trx_t option \<Rightarrow> nat \<Rightarrow> world \<Rightarrow> world" where
  "free_trx trx cur w =
     (let trx' = (case trx of None \<Rightarrow> ha_data w cur | Some t \<Rightarrow> Some t)
      in w\<lparr> ha_data := (ha_data w)(cur := None) \<rparr>)"

section \<open>Opening, closing and creating a table\<close>

definition set_share :: "nat \<Rightarrow> nat option \<Rightarrow> world \<Rightarrow> world" where
  "set_share this sp w = w\<lparr> handlers := (handlers w)(this := (handlers w this)\<lparr> share := sp \<rparr>) \<rparr>"

definition set_dbpath :: "nat \<Rightarrow> string \<Rightarrow> world \<Rightarrow> world" where
  "set_dbpath this name w = w\<lparr> handlers := (handlers w)(this := (handlers w this)\<lparr> dbpath := name \<rparr>) \<rparr>"

definition set_status :: "nat \<Rightarrow> int \<Rightarrow> world \<Rightarrow> world" where
  "set_status this st w =
     w\<lparr> handlers := (handlers w)(this := (handlers w this)\<lparr> table := (table (handlers w this))\<lparr> status := st \<rparr> \<rparr>) \<rparr>"

text \<open>\<^verbatim>\<open>ha_ldb::open\<close>.\<close>

definition ldb_open :: "nat \<Rightarrow> string \<Rightarrow> nat option \<Rightarrow> bool \<Rightarrow> bool \<Rightarrow> world \<Rightarrow> fault + (int \<times> world)" where
  "ldb_open this name malloc io_ok insert_ok w =
     (case get_share name malloc io_ok insert_ok w of
        Inl f \<Rightarrow> Inl f
      | Inr (None, w1) \<Rightarrow> Inr (1, set_share this None w1)
      | Inr (Some a, w1) \<Rightarrow> Inr (0, set_share this (Some a) w1))"

text \<open>\<^verbatim>\<open>ha_ldb::close\<close>.\<close>

definition ldb_close :: "nat \<Rightarrow> world \<Rightarrow> fault + (int \<times> world)" where
  "ldb_close this w =
     (case share (handlers w this) of
        None \<Rightarrow> Inl NullPointer
      | Some a \<Rightarrow> free_share a w)"

text \<open>\<^verbatim>\<open>ha_ldb::create\<close>; \<open>table_arg\<close> is the description of the table to create.\<close>

definition create :: "nat \<Rightarrow> string \<Rightarrow> TABLE \<Rightarrow> bool \<Rightarrow> world \<Rightarrow> int \<times> world" where
  "create this name table_arg io_ok w =
     (if key_parts table_arg \<noteq> 1 \<or> uniques table_arg \<noteq> 1
      then (HA_ERR_WRONG_INDEX, w\<lparr> my_errno := HA_ERR_WRONG_INDEX \<rparr>)
      else (case leveldb_open name True io_ok (set_dbpath this name w) of
              (s, dbh, w1) \<Rightarrow> (if s then 0 else 1, w1)))"

text \<open>\<^verbatim>\<open>ha_ldb::delete_table\<close>: \<^verbatim>\<open>DestroyDB\<close> removes the database; its status is
  not read.\<close>

definition delete_table :: "nat \<Rightarrow> string \<Rightarrow> world \<Rightarrow> int \<times> world" where
  "delete_table this name w =
     (let w1 = set_dbpath this name w
      in (0, w1\<lparr> disk := (disk w1)(name := None),
                 ldb_log := ldb_log w1 @ [Call_Destroy name] \<rparr>))"

section \<open>Row operations\<close>

text \<open>\<^verbatim>\<open>ha_ldb::get_key\<close>: the key of a row, read from the row buffer at the key part's
  offset, after the length bytes of a variable-length key type.\<close>

definition get_key :: "TABLE \<Rightarrow> bytes \<Rightarrow> bytes option" where
  "get_key tbl buf =
     (let kp = key_part tbl;
          bit_start0 = (if kp_type kp = HA_KEYTYPE_VARTEXT1 \<or> kp_type kp = HA_KEYTYPE_VARBINARY1
                        then 1 else 0);
          bit_start = (if kp_type kp = HA_KEYTYPE_VARTEXT2 \<or> kp_type kp = HA_KEYTYPE_VARBINARY2
                       then 2 else bit_start0)
      in mem_read buf (kp_offset kp + bit_start) (kp_length kp))"

text \<open>
  \<^verbatim>\<open>my_compress\<close> and \<^verbatim>\<open>my_uncompress\<close> belong to the host (they call zlib).  What a
  call did is an input of the model.  \<open>Compressed c\<close>: the packet now starts with the
  compressed bytes \<open>c\<close>, the length is \<open>length c\<close> and the call returned 0;
  \<open>Unchanged r\<close>: packet and length are untouched and the call returned \<open>r\<close>.
  For \<^verbatim>\<open>my_uncompress\<close>, \<open>Some d\<close>: the packet now starts with the inflated bytes
  \<open>d\<close>; \<open>None\<close>: the packet is untouched.
\<close>

datatype compress_answer = Compressed bytes | Unchanged bool

fun my_compress :: "bytes \<Rightarrow> nat \<Rightarrow> compress_answer \<Rightarrow> (bool \<times> bytes \<times> nat) option" where
  "my_compress packet len (Compressed c) =
     (case mem_write packet c of None \<Rightarrow> None | Some p \<Rightarrow> Some (False, p, length c))"
| "my_compress packet len (Unchanged r) = Some (r, packet, len)"

fun my_uncompress :: "bytes \<Rightarrow> bytes option \<Rightarrow> bytes option" where
  "my_uncompress packet (Some d) = mem_write packet d"
| "my_uncompress packet None = Some packet"

text \<open>\<^verbatim>\<open>trx->batch.Put\<close> and \<^verbatim>\<open>trx->batch.Delete\<close> on the session's scope.\<close>

definition batch_append :: "nat \<Rightarrow> batch_op \<Rightarrow> world \<Rightarrow> fault + world" where
  "batch_append cur bop w =
     (case ha_data w cur of
        None \<Rightarrow> Inl NullPointer
      | Some trx \<Rightarrow> Inr (w\<lparr> ha_data := (ha_data w)(cur := Some (trx\<lparr> batch := batch trx @ [bop] \<rparr>)) \<rparr>))"

text \<open>\<^verbatim>\<open>ha_ldb::write_row\<close>; the result carries the row buffer, which
  \<^verbatim>\<open>my_compress\<close> may have overwritten.\<close>

definition write_row :: "nat \<Rightarrow> bytes \<Rightarrow> compress_answer \<Rightarrow> nat \<Rightarrow> world \<Rightarrow> fault + (int \<times> bytes \<times> world)" where
  "write_row this buf ans cur w =
     (case get_key (table (handlers w this)) buf of
        None \<Rightarrow> Inl OutOfBounds
      | Some key \<Rightarrow>
          (case my_compress buf (rec_buff_length (table (handlers w this))) ans of
             None \<Rightarrow> Inl OutOfBounds
           | Some (r, buf1, raw_len) \<Rightarrow>
               (case mem_read buf1 0 raw_len of
                  None \<Rightarrow> Inl OutOfBounds
                | Some val \<Rightarrow>
                    (case batch_append cur (Put key val) w of
                       Inl f \<Rightarrow> Inl f
                     | Inr w1 \<Rightarrow> Inr (0, buf1, w1)))))"

text \<open>\<^verbatim>\<open>ha_ldb::update_row\<close>.\<close>

definition update_row :: "nat \<Rightarrow> bytes \<Rightarrow> bytes \<Rightarrow> compress_answer \<Rightarrow> nat \<Rightarrow> world \<Rightarrow> fault + (int \<times> bytes \<times> world)" where
  "update_row this old_data new_data ans cur w =
     (case get_key (table (handlers w this)) old_data of
        None \<Rightarrow> Inl OutOfBounds
      | Some old_key \<Rightarrow>
          (case get_key (table (handlers w this)) new_data of
             None \<Rightarrow> Inl OutOfBounds
           | Some new_key \<Rightarrow>
               (case (if old_key \<noteq> new_key then batch_append cur (Delete old_key) w else Inr w) of
                  Inl f \<Rightarrow> Inl f
                | Inr w1 \<Rightarrow>
                    (case write_row this new_data ans cur w1 of
                       Inl f \<Rightarrow> Inl f
                     | Inr (rc, buf1, w2) \<Rightarrow> Inr (0, buf1, w2)))))"

text \<open>\<^verbatim>\<open>ha_ldb::delete_row\<close>.\<close>

definition delete_row :: "nat \<Rightarrow> bytes \<Rightarrow> nat \<Rightarrow> world \<Rightarrow> fault + (int \<times> world)" where
  "delete_row this buf cur w =
     (case get_key (table (handlers w this)) buf of
        None \<Rightarrow> Inl OutOfBounds
      | Some key \<Rightarrow>
          (case batch_append cur (Delete key) w of
             Inl f \<Rightarrow> Inl f
           | Inr w1 \<Rightarrow> Inr (0, w1)))"

text \<open>The database a handler reaches through \<^verbatim>\<open>share->db\<close>.\<close>

definition share_db :: "world \<Rightarrow> nat \<Rightarrow> fault + string" where
  "share_db w h =
     (case share (handlers w h) of
        None \<Rightarrow> Inl NullPointer
      | Some a \<Rightarrow>
          (case heap w a of
             None \<Rightarrow> Inl DanglingPointer
           | Some sh \<Rightarrow> (case db sh of None \<Rightarrow> Inl NullPointer | Some p \<Rightarrow> Inr p)))"

text \<open>The store key of a point lookup: the search key from \<open>bit_start\<close> on, of length
  \<^verbatim>\<open>key_len - bit_start\<close> computed on \<^verbatim>\<open>uint\<close>.\<close>

definition index_read_key :: "TABLE \<Rightarrow> bytes \<Rightarrow> 32 word \<Rightarrow> bytes option" where
  "index_read_key tbl key key_len =
     (let bit_start = (if kp_flag (key_part tbl) AND HA_VAR_LENGTH_PART \<noteq> 0 then 2 else 0)
      in mem_read key bit_start (unat (key_len - of_nat bit_start)))"

text \<open>\<^verbatim>\<open>ha_ldb::index_read\<close>; \<open>buf\<close> is the buffer the row is returned in, \<open>ans\<close>
  what \<^verbatim>\<open>my_uncompress\<close> does (its return value is not read).\<close>

definition index_read :: "nat \<Rightarrow> bytes \<Rightarrow> bytes \<Rightarrow> 32 word \<Rightarrow> bytes option \<Rightarrow> world \<Rightarrow> fault + (int \<times> bytes \<times> world)" where
  "index_read this buf key key_len ans w =
     (case index_read_key (table (handlers w this)) key key_len of
        None \<Rightarrow> Inl OutOfBounds
      | Some skey \<Rightarrow>
          (case share_db w this of
             Inl f \<Rightarrow> Inl f
           | Inr p \<Rightarrow>
               (case DB_Get (disk w) p skey of
                  None \<Rightarrow> Inr (HA_ERR_END_OF_FILE, buf, w)
                | Some svalue \<Rightarrow>
                    (case mem_write buf svalue of
                       None \<Rightarrow> Inl OutOfBounds
                     | Some buf1 \<Rightarrow>
                         (case my_uncompress buf1 ans of
                            None \<Rightarrow> Inl OutOfBounds
                          | Some buf2 \<Rightarrow> Inr (0, buf2, set_status this 0 w))))))"

section \<open>Scans and the remaining callbacks\<close>

definition index_next :: "nat \<Rightarrow> bytes \<Rightarrow> world \<Rightarrow> int \<times> bytes \<times> world" where
  "index_next this buf w = (HA_ERR_END_OF_FILE, buf, set_status this STATUS_NOT_FOUND w)"

definition index_prev :: "nat \<Rightarrow> bytes \<Rightarrow> world \<Rightarrow> int \<times> bytes \<times> world" where
  "index_prev this buf w = (HA_ERR_WRONG_COMMAND, buf, w)"

definition index_first :: "nat \<Rightarrow> bytes \<Rightarrow> world \<Rightarrow> int \<times> bytes \<times> world" where
  "index_first this buf w = (HA_ERR_WRONG_COMMAND, buf, w)"

definition index_last :: "nat \<Rightarrow> bytes \<Rightarrow> world \<Rightarrow> int \<times> bytes \<times> world" where
  "index_last this buf w = (HA_ERR_WRONG_COMMAND, buf, w)"

definition rnd_init :: "nat \<Rightarrow> bool \<Rightarrow> world \<Rightarrow> int \<times> world" where
  "rnd_init this scan w = (HA_ERR_WRONG_COMMAND, w)"

definition rnd_end :: "nat \<Rightarrow> world \<Rightarrow> int \<times> world" where
  "rnd_end this w = (HA_ERR_WRONG_COMMAND, w)"

definition rnd_next :: "nat \<Rightarrow> bytes \<Rightarrow> world \<Rightarrow> int \<times> bytes \<times> world" where
  "rnd_next this buf w = (HA_ERR_WRONG_COMMAND, buf, w)"

definition rnd_pos :: "nat \<Rightarrow> bytes \<Rightarrow> bytes \<Rightarrow> world \<Rightarrow> int \<times> bytes \<times> world" where
  "rnd_pos this buf pos w = (HA_ERR_WRONG_COMMAND, buf, w)"

definition info :: "nat \<Rightarrow> world \<Rightarrow> int \<times> world" where
  "info this w = (0, w)"

definition extra :: "nat \<Rightarrow> world \<Rightarrow> int \<times> world" where
  "extra this w = (0, w)"

definition delete_all_rows :: "nat \<Rightarrow> world \<Rightarrow> int \<times> world" where
  "delete_all_rows this w = (HA_ERR_WRONG_COMMAND, w)"

definition truncate :: "nat \<Rightarrow> world \<Rightarrow> int \<times> world" where
  "truncate this w = (HA_ERR_WRONG_COMMAND, w)"

definition rename_table :: "nat \<Rightarrow> string \<Rightarrow> string \<Rightarrow> world \<Rightarrow> int \<times> world" where
  "rename_table this from to w = (HA_ERR_WRONG_COMMAND, w)"

section \<open>The lock hook\<close>

text \<open>
  \<^verbatim>\<open>ha_ldb::external_lock\<close>.  The \<^verbatim>\<open>thd\<close> argument is overwritten by
  \<^verbatim>\<open>current_thd\<close>, the session \<open>cur\<close>.  \<open>io_ok\<close> says whether the environment lets
  the \<^verbatim>\<open>DB::Write\<close> go through.
\<close>

definition external_lock :: "nat \<Rightarrow> int \<Rightarrow> bool \<Rightarrow> nat \<Rightarrow> world \<Rightarrow> fault + (int \<times> world)" where
  "external_lock this lock_type io_ok cur w =
     (if lock_type \<noteq> F_UNLCK
      then (case ha_data w cur of
              None \<Rightarrow> Inr (0, w\<lparr> ha_data := (ha_data w)(cur := Some \<lparr> pobj = this, batch = [] \<rparr>) \<rparr>)
            | Some trx \<Rightarrow> Inr (0, w))
      else (case ha_data w cur of
              None \<Rightarrow> Inr (1, w)
            | Some trx \<Rightarrow>
                (case share_db w (pobj trx) of
                   Inl f \<Rightarrow> Inl f
                 | Inr p \<Rightarrow>
                     (case DB_Write io_ok p (batch trx) (disk w) of
                        (s, d') \<Rightarrow>
                          Inr (if s then 0 else 1,
                               free_trx (Some trx) cur
                                 (w\<lparr> disk := d',
                                     ldb_log := ldb_log w @ [Call_Write p (wo_sync w) (batch trx)] \<rparr>))))))"

section \<open>The handler interface as a transition system\<close>

text \<open>A call of the host into the handler, with the environment's answers to the
  external calls it makes.  The session that makes the call is given to \<open>step\<close>.
  \<^verbatim>\<open>store_lock\<close>, \<^verbatim>\<open>position\<close> and \<^verbatim>\<open>records_in_range\<close> read and write none of
  the state described above and are left out.\<close>

datatype call =
  C_open nat string "nat option" bool bool
| C_close nat
| C_create nat string TABLE bool
| C_delete_table nat string
| C_rename_table nat string string
| C_write_row nat bytes compress_answer
| C_update_row nat bytes bytes compress_answer
| C_delete_row nat bytes
| C_index_read nat bytes bytes "32 word" "bytes option"
| C_index_next nat bytes
| C_index_prev nat bytes
| C_index_first nat bytes
| C_index_last nat bytes
| C_rnd_init nat bool
| C_rnd_end nat
| C_rnd_next nat bytes
| C_rnd_pos nat bytes bytes
| C_info nat
| C_extra nat
| C_delete_all_rows nat
| C_truncate nat
| C_external_lock nat int bool

definition drop_buf :: "fault + (int \<times> bytes \<times> world) \<Rightarrow> fault + (int \<times> world)" where
  "drop_buf r = (case r of Inl f \<Rightarrow> Inl f | Inr (rc, buf, w) \<Rightarrow> Inr (rc, w))"

fun step :: "nat \<Rightarrow> call \<Rightarrow> world \<Rightarrow> fault + (int \<times> world)" where
  "step cur (C_open h name malloc io_ok insert_ok) w = ldb_open h name malloc io_ok insert_ok w"
| "step cur (C_close h) w = ldb_close h w"
| "step cur (C_create h name table_arg io_ok) w = Inr (create h name table_arg io_ok w)"
| "step cur (C_delete_table h name) w = Inr (delete_table h name w)"
| "step cur (C_rename_table h from to) w = Inr (rename_table h from to w)"
| "step cur (C_write_row h buf ans) w = drop_buf (write_row h buf ans cur w)"
| "step cur (C_update_row h old_data new_data ans) w = drop_buf (update_row h old_data new_data ans cur w)"
| "step cur (C_delete_row h buf) w = delete_row h buf cur w"
| "step cur (C_index_read h buf key key_len ans) w = drop_buf (index_read h buf key key_len ans w)"
| "step cur (C_index_next h buf) w = drop_buf (Inr (index_next h buf w))"
| "step cur (C_index_prev h buf) w = drop_buf (Inr (index_prev h buf w))"
| "step cur (C_index_first h buf) w = drop_buf (Inr (index_first h buf w))"
| "step cur (C_index_last h buf) w = drop_buf (Inr (index_last h buf w))"
| "step cur (C_rnd_init h scan) w = Inr (rnd_init h scan w)"
| "step cur (C_rnd_end h) w = Inr (rnd_end h w)"
| "step cur (C_rnd_next h buf) w = drop_buf (Inr (rnd_next h buf w))"
| "step cur (C_rnd_pos h buf pos) w = drop_buf (Inr (rnd_pos h buf pos w))"
| "step cur (C_info h) w = Inr (info h w)"
| "step cur (C_extra h) w = Inr (extra h w)"
| "step cur (C_delete_all_rows h) w = Inr (delete_all_rows h w)"
| "step cur (C_truncate h) w = Inr (truncate h w)"
| "step cur (C_external_lock h lock_type io_ok) w = external_lock h lock_type io_ok cur w"

text \<open>A sequence of calls, each by its session; a fault ends the run.\<close>

fun run :: "(nat \<times> call) list \<Rightarrow> world \<Rightarrow> fault + world" where
  "run [] w = Inr w"
| "run ((cur, c) # cs) w =
     (case step cur c w of Inl f \<Rightarrow> Inl f | Inr (rc, w1) \<Rightarrow> run cs w1)"

text \<open>An answer of the allocator is admissible when the block it names is not allocated.\<close>

fun admissible :: "call \<Rightarrow> world \<Rightarrow> bool" where
  "admissible (C_open h name (Some a) io_ok insert_ok) w = (heap w a = None)"
| "admissible c w = True"

fun run_admissible :: "(nat \<times> call) list \<Rightarrow> world \<Rightarrow> bool" where
  "run_admissible [] w = True"
| "run_admissible ((cur, c) # cs) w =
     (admissible c w \<and>
      (case step cur c w of Inl f \<Rightarrow> True | Inr (rc, w1) \<Rightarrow> run_admissible cs w1))"

text \<open>The states the process can be in: those a run of calls with admissible answers
  leads to from start-up.\<close>

inductive reachable :: "world \<Rightarrow> bool" where
  reachable_init: "reachable (init_world cs tbls d)"
| reachable_step:
    "reachable w \<Longrightarrow> admissible c w \<Longrightarrow> step cur c w = Inr (rc, w') \<Longrightarrow> reachable w'"




text \<open>The unlock call of the lock hook.\<close>

fun is_unlock :: "call \<Rightarrow> bool" where
  "is_unlock (C_external_lock h lock_type io_ok) = (lock_type = F_UNLCK)"
| "is_unlock c = False"

text \<open>The calls that change rows.\<close>

fun is_mutation :: "call \<Rightarrow> bool" where
  "is_mutation (C_write_row h buf ans) = True"
| "is_mutation (C_update_row h old_data new_data ans) = True"
| "is_mutation (C_delete_row h buf) = True"
| "is_mutation c = False"

text \<open>Invariants of the registry: the hash holds each allocated share once, and no two
  shares have one key; a share with a database handle exists only after
  \<^verbatim>\<open>leveldb_open\<close> has set \<^verbatim>\<open>wo.sync\<close>.\<close>

definition reg_inv :: "world \<Rightarrow> bool" where
  "reg_inv w \<longleftrightarrow>
     distinct (ldb_open_tables w) \<and>
     set (ldb_open_tables w) = dom (heap w) \<and>
     (\<forall>a b sh sh'. heap w a = Some sh \<longrightarrow> heap w b = Some sh' \<longrightarrow>
         system_charset_info w (table_name sh) = system_charset_info w (table_name sh') \<longrightarrow> a = b) \<and>
     (\<forall>a sh. heap w a = Some sh \<longrightarrow> db sh \<noteq> None \<longrightarrow> wo_sync w)"



section \<open>The key rule in the specification's words\<close>

text \<open>
  The specification describes key extraction by a descriptor with an offset, a declared
  length and a prefix width: 1 for the key types with one length byte, 2 for those with two,
  0 otherwise; the key is the slice
  \<^verbatim>\<open>row_buffer[offset+prefix_width : offset+prefix_width+declared_length]\<close>.  These two
  definitions follow those words; \<open>get_key\<close> above follows the code.
\<close>

definition prefix_width :: "ha_base_keytype \<Rightarrow> nat" where
  "prefix_width ty =
     (if ty = HA_KEYTYPE_VARTEXT1 \<or> ty = HA_KEYTYPE_VARBINARY1 then 1
      else if ty = HA_KEYTYPE_VARTEXT2 \<or> ty = HA_KEYTYPE_VARBINARY2 then 2
      else 0)"

definition extract_key :: "bytes \<Rightarrow> KEY_PART_INFO \<Rightarrow> bytes" where
  "extract_key row_buffer kp =
     take (kp_length kp) (drop (kp_offset kp + prefix_width (kp_type kp)) row_buffer)"

section \<open>Sample tables and rows\<close>

text \<open>A table with a four-byte binary key at offset 0 and records of 16 bytes, a table
  with a variable-length text key (one length byte in the row), and a table with a nine-byte
  binary key.\<close>

definition tbl4 :: TABLE where
  "tbl4 = \<lparr> key_part = \<lparr> kp_offset = 0, kp_length = 4, kp_flag = 0, kp_type = HA_KEYTYPE_BINARY \<rparr>,
            rec_buff_length = 16, key_parts = 1, uniques = 1, status = 0 \<rparr>"

definition tbl_var :: TABLE where
  "tbl_var = \<lparr> key_part = \<lparr> kp_offset = 0, kp_length = 2, kp_flag = HA_VAR_LENGTH_PART,
                            kp_type = HA_KEYTYPE_VARTEXT1 \<rparr>,
               rec_buff_length = 16, key_parts = 1, uniques = 1, status = 0 \<rparr>"

definition tbl9 :: TABLE where
  "tbl9 = \<lparr> key_part = \<lparr> kp_offset = 0, kp_length = 9, kp_flag = 0, kp_type = HA_KEYTYPE_BINARY \<rparr>,
            rec_buff_length = 16, key_parts = 1, uniques = 1, status = 0 \<rparr>"

definition row_abcd :: bytes where
  "row_abcd = [97, 98, 99, 100, 1, 2, 3, 4, 5, 6, 7, 8, 9, 10, 11, 12]"

definition row_abce :: bytes where
  "row_abce = [97, 98, 99, 101, 1, 2, 3, 4, 5, 6, 7, 8, 9, 10, 11, 12]"

text \<open>A 16-byte row that starts with the nine bytes zlib's \<^verbatim>\<open>compress\<close> produces for
  the one-byte string \<^verbatim>\<open>a\<close> (hexadecimal 78 9c 4b 04 00 00 62 00 62).\<close>

definition row_z :: bytes where
  "row_z = [120, 156, 75, 4, 0, 0, 98, 0, 98, 0, 0, 0, 0, 0, 0, 0]"

text \<open>A state with table \<^verbatim>\<open>t\<close> open in every handler, a scope in every session and one
  stored row.\<close>

definition world_open :: world where
  "world_open =
     \<lparr> ldb_open_tables = [0], system_charset_info = (\<lambda>s. s),
       heap = [0 \<mapsto> \<lparr> table_name = ''t'', table_name_length = 1, use_count = 1, db = Some ''t'' \<rparr>],
       handlers = (\<lambda>h. \<lparr> share = Some 0, dbpath = [], table = tbl4 \<rparr>),
       ha_data = (\<lambda>t. Some \<lparr> pobj = 0, batch = [] \<rparr>), wo_sync = True, my_errno = 0,
       disk = [''t'' \<mapsto> (Map.empty([97, 98, 99, 100] \<mapsto> row_abcd))], ldb_log = [Call_Open ''t'' False 33554432] \<rparr>"


section \<open>Basic facts\<close>

lemmas host_consts = HA_ERR_WRONG_INDEX_def HA_ERR_WRONG_COMMAND_def HA_ERR_END_OF_FILE_def
  STATUS_NOT_FOUND_def F_UNLCK_def HA_VAR_LENGTH_PART_def

lemma my_hash_search_None:
  "my_hash_search cs hp as name = Inr None \<Longrightarrow> a \<in> set as \<Longrightarrow> hp a = Some sh \<Longrightarrow>
   cs (table_name sh) \<noteq> cs name"
  by (induction as) (auto split: option.splits if_splits)

lemma my_hash_search_Some:
  "my_hash_search cs hp as name = Inr (Some a) \<Longrightarrow>
   a \<in> set as \<and> (\<exists>sh. hp a = Some sh \<and> cs (table_name sh) = cs name)"
  by (induction as) (auto split: option.splits if_splits)


lemma reg_inv_init: "reg_inv (init_world cs tbls d)"
  by (simp add: reg_inv_def init_world_def)

lemma leveldb_open_frame:
  "leveldb_open name cim io_ok w = (s, dbh, w1) \<Longrightarrow>
     ldb_open_tables w1 = ldb_open_tables w \<and> heap w1 = heap w \<and>
     system_charset_info w1 = system_charset_info w \<and>
     wo_sync w1 \<and> handlers w1 = handlers w \<and> ha_data w1 = ha_data w \<and>
     ldb_log w1 = ldb_log w @ [Call_Open name cim 33554432] \<and>
     (s, dbh, disk w1) = DB_Open io_ok cim name (disk w)"
  by (auto simp: leveldb_open_def split: prod.splits)

lemma get_share_reg_inv:
  assumes "reg_inv w" and "\<forall>a. malloc = Some a \<longrightarrow> heap w a = None"
    and "get_share name malloc io_ok insert_ok w = Inr (r, w')"
  shows "reg_inv w'"
proof -
  from assms(3) obtain res where res: "my_hash_search (system_charset_info w) (heap w) (ldb_open_tables w) name = Inr res"
    by (auto simp: get_share_def split: sum.splits)
  show ?thesis
  proof (cases res)
    case (Some a)
    with res have "my_hash_search (system_charset_info w) (heap w) (ldb_open_tables w) name = Inr (Some a)"
      by simp
    from my_hash_search_Some [OF this] obtain sh where sh: "heap w a = Some sh" by blast
    with Some res assms(3) have w': "w' = w\<lparr> heap := (heap w)(a \<mapsto> sh\<lparr> use_count := use_count sh + 1 \<rparr>) \<rparr>"
      by (simp add: get_share_def)
    from assms(1) sh show ?thesis
      unfolding reg_inv_def w'
      by (auto simp: dom_def split: if_splits)
  next
    case None
    show ?thesis
    proof (cases malloc)
      case N: None
      with None res assms(3) show ?thesis using assms(1) by (simp add: get_share_def)
    next
      case (Some a)
      obtain s dbh w1 where lo: "leveldb_open name False io_ok w = (s, dbh, w1)"
        by (cases "leveldb_open name False io_ok w") auto
      note fr = leveldb_open_frame [OF lo]
      have nn: "\<And>b sh. heap w b = Some sh \<Longrightarrow>
                  system_charset_info w (table_name sh) \<noteq> system_charset_info w name"
        using my_hash_search_None [OF res [unfolded None]] assms(1) unfolding reg_inv_def
        by (metis domI)
      have fresh: "heap w a = None" using assms(2) Some by simp
      show ?thesis
      proof (cases insert_ok)
        case False
        with None Some res lo assms(3) have "w' = w1"
          by (simp add: get_share_def Let_def)
        with assms(1) fr show ?thesis
          unfolding reg_inv_def by auto
      next
        case ins: True
        with None Some res lo assms(3) have w': "w' = w1\<lparr> ldb_open_tables := ldb_open_tables w1 @ [a],
              heap := (heap w1)(a \<mapsto> \<lparr> table_name = name, table_name_length = length name,
                                   use_count = 0 + 1, db = dbh \<rparr>) \<rparr>"
          by (simp add: get_share_def Let_def)
        have na: "a \<notin> set (ldb_open_tables w)"
          using fresh assms(1) unfolding reg_inv_def by auto
        have nn': "\<And>b sh. heap w b = Some sh \<Longrightarrow>
                  system_charset_info w name \<noteq> system_charset_info w (table_name sh)"
          using nn by metis
        have d: "distinct (ldb_open_tables w') \<and> set (ldb_open_tables w') = dom (heap w')"
          using assms(1) fr na unfolding reg_inv_def w' by (auto simp: dom_def)
        have u: "\<forall>x y sh sh'. heap w' x = Some sh \<longrightarrow> heap w' y = Some sh' \<longrightarrow>
                  system_charset_info w' (table_name sh) = system_charset_info w' (table_name sh') \<longrightarrow> x = y"
        proof (intro allI impI)
          fix x y sh sh'
          assume x: "heap w' x = Some sh" and y: "heap w' y = Some sh'"
            and e: "system_charset_info w' (table_name sh) = system_charset_info w' (table_name sh')"
          have cs: "system_charset_info w' = system_charset_info w" using fr by (simp add: w')
          show "x = y"
          proof (cases "x = a")
            case xa: True
            with x have tx: "table_name sh = name" by (auto simp: w')
            show ?thesis
            proof (cases "y = a")
              case True
              with xa show ?thesis by simp
            next
              case False
              with y fr have "heap w y = Some sh'" by (simp add: w')
              from nn' [OF this] e tx cs show ?thesis by simp
            qed
          next
            case xa: False
            with x fr have hx: "heap w x = Some sh" by (simp add: w')
            show ?thesis
            proof (cases "y = a")
              case True
              with y have "table_name sh' = name" by (auto simp: w')
              with nn [OF hx] e cs show ?thesis by simp
            next
              case False
              with y fr have hy: "heap w y = Some sh'" by (simp add: w')
              from e cs have e': "system_charset_info w (table_name sh)
                  = system_charset_info w (table_name sh')" by simp
              from assms(1) hx hy e' show ?thesis unfolding reg_inv_def by blast
            qed
          qed
        qed
        have sy: "\<forall>x sh. heap w' x = Some sh \<longrightarrow> db sh \<noteq> None \<longrightarrow> wo_sync w'"
          using fr by (simp add: w')
        from d u sy show ?thesis unfolding reg_inv_def by blast
      qed
    qed
  qed
qed

lemma free_share_reg_inv:
  assumes "reg_inv w" and "free_share a w = Inr (r, w')"
  shows "reg_inv w'"
proof -
  from assms(2) obtain sh where sh: "heap w a = Some sh"
    by (auto simp: free_share_def split: option.splits)
  show ?thesis
  proof (cases "use_count sh - 1 = 0")
    case True
    with sh assms(2) have w': "w' = w\<lparr> ldb_log := ldb_log w @ [Call_Close (db sh)],
                           ldb_open_tables := removeAll a (ldb_open_tables w),
                           heap := (heap w)(a := None) \<rparr>"
      by (simp add: free_share_def Let_def)
    from assms(1) show ?thesis
      unfolding reg_inv_def w'
      by (auto simp: distinct_removeAll dom_def split: if_splits)
  next
    case False
    with sh assms(2) have w': "w' = w\<lparr> heap := (heap w)(a \<mapsto> sh\<lparr> use_count := use_count sh - 1 \<rparr>) \<rparr>"
      by (simp add: free_share_def Let_def)
    from assms(1) sh show ?thesis
      unfolding reg_inv_def w'
      by (auto simp: dom_def split: if_splits)
  qed
qed

lemma set_share_reg_inv: "reg_inv (set_share h sp w) = reg_inv w"
  by (simp add: reg_inv_def set_share_def)

lemma step_reg_inv:
  assumes "reg_inv w" and "admissible c w" and "step cur c w = Inr (rc, w')"
  shows "reg_inv w'"
proof (cases c)
  case (C_open h name m i ins)
  with assms(2) have adm: "\<forall>a. m = Some a \<longrightarrow> heap w a = None" by (cases m) auto
  from C_open assms(3) obtain r w1 where
    gs: "get_share name m i ins w = Inr (r, w1)" and w': "w' = set_share h r w1"
    by (auto simp: ldb_open_def split: sum.splits option.splits prod.splits)
  from get_share_reg_inv [OF assms(1) adm gs] w' show ?thesis
    by (simp add: set_share_reg_inv)
next
  case (C_close h)
  with assms show ?thesis
    by (auto simp: ldb_close_def split: option.splits dest: free_share_reg_inv)
next
  case (C_create h name ta io)
  with assms show ?thesis
    by (auto simp: create_def reg_inv_def leveldb_open_def set_dbpath_def split: if_splits prod.splits)
next
  case (C_delete_table h name)
  with assms show ?thesis
    by (auto simp: delete_table_def reg_inv_def set_dbpath_def Let_def)
next
  case (C_write_row h buf ans)
  with assms show ?thesis
    by (auto simp: drop_buf_def write_row_def batch_append_def reg_inv_def
        split: sum.splits option.splits prod.splits)
next
  case (C_update_row h o1 n1 ans)
  with assms show ?thesis
    by (auto simp: drop_buf_def update_row_def write_row_def batch_append_def reg_inv_def
        split: sum.splits option.splits prod.splits if_splits)
next
  case (C_delete_row h buf)
  with assms show ?thesis
    by (auto simp: delete_row_def batch_append_def reg_inv_def
        split: sum.splits option.splits prod.splits)
next
  case (C_index_read h buf key kl ans)
  with assms show ?thesis
    by (auto simp: drop_buf_def index_read_def set_status_def reg_inv_def
        split: sum.splits option.splits prod.splits)
next
  case (C_external_lock h lt io)
  with assms show ?thesis
    by (auto simp: external_lock_def free_trx_def reg_inv_def
        split: sum.splits option.splits prod.splits if_splits)
qed (use assms in \<open>auto simp: drop_buf_def rename_table_def index_next_def index_prev_def
      index_first_def index_last_def rnd_init_def rnd_end_def rnd_next_def rnd_pos_def info_def
      extra_def delete_all_rows_def truncate_def set_status_def reg_inv_def\<close>)

lemma reachable_reg_inv: "reachable w \<Longrightarrow> reg_inv w"
  by (induction rule: reachable.induct) (auto intro: reg_inv_init step_reg_inv)

lemma run_reachable:
  "reachable w \<Longrightarrow> run_admissible cs w \<Longrightarrow> run cs w = Inr w' \<Longrightarrow> reachable w'"
proof (induction cs arbitrary: w)
  case Nil
  then show ?case by simp
next
  case (Cons x cs)
  obtain cur c where x: "x = (cur, c)" by (cases x)
  from Cons.prems(3) x obtain rc w1 where st: "step cur c w = Inr (rc, w1)" and r: "run cs w1 = Inr w'"
    by (auto split: sum.splits)
  from Cons.prems(2) x st have ad: "admissible c w" and ra: "run_admissible cs w1" by simp_all
  from Cons.prems(1) ad st have "reachable w1" by (rule reachable_step)
  then show ?case using ra r by (rule Cons.IH)
qed

































lemma share_db_Inr:
  "share_db w h = Inr p \<Longrightarrow> \<exists>a sh. share (handlers w h) = Some a \<and> heap w a = Some sh \<and> db sh = Some p"
  by (auto simp: share_db_def split: option.splits)

lemma reachable_sync: "reachable w \<Longrightarrow> share_db w h = Inr p \<Longrightarrow> wo_sync w"
  using reachable_reg_inv [of w] share_db_Inr [of w h p] unfolding reg_inv_def by blast

lemma batch_append_Inr:
  "batch_append cur bop w = Inr w1 \<Longrightarrow>
     \<exists>t. ha_data w cur = Some t \<and> w1 = w\<lparr> ha_data := (ha_data w)(cur := Some (t\<lparr> batch := batch t @ [bop] \<rparr>)) \<rparr>"
  by (auto simp: batch_append_def split: option.splits)

lemma write_row_Inr:
  "write_row h buf ans cur w = Inr (rc, b, w1) \<Longrightarrow>
     \<exists>t k v. ha_data w cur = Some t \<and> get_key (table (handlers w h)) buf = Some k \<and> rc = 0 \<and>
        w1 = w\<lparr> ha_data := (ha_data w)(cur := Some (t\<lparr> batch := batch t @ [Put k v] \<rparr>)) \<rparr>"
  by (auto simp: write_row_def split: option.splits sum.splits prod.splits dest!: batch_append_Inr)

lemma delete_row_Inr:
  "delete_row h buf cur w = Inr (rc, w1) \<Longrightarrow>
     \<exists>t k. ha_data w cur = Some t \<and> get_key (table (handlers w h)) buf = Some k \<and> rc = 0 \<and>
        w1 = w\<lparr> ha_data := (ha_data w)(cur := Some (t\<lparr> batch := batch t @ [Delete k] \<rparr>)) \<rparr>"
  by (auto simp: delete_row_def split: option.splits sum.splits prod.splits dest!: batch_append_Inr)

lemma update_row_Inr:
  assumes "update_row h old_data new_data ans cur w = Inr (rc, b, w1)"
  shows "\<exists>t ko kn v. ha_data w cur = Some t \<and> get_key (table (handlers w h)) old_data = Some ko \<and>
        get_key (table (handlers w h)) new_data = Some kn \<and> rc = 0 \<and>
        w1 = w\<lparr> ha_data := (ha_data w)(cur := Some (t\<lparr> batch := batch t @
               (if ko \<noteq> kn then [Delete ko, Put kn v] else [Put kn v]) \<rparr>)) \<rparr>"
proof -
  from assms obtain ko kn w0 rc0 where
    ko: "get_key (table (handlers w h)) old_data = Some ko" and
    kn: "get_key (table (handlers w h)) new_data = Some kn" and
    d: "(if ko \<noteq> kn then batch_append cur (Delete ko) w else Inr w) = Inr w0" and
    wr: "write_row h new_data ans cur w0 = Inr (rc0, b, w1)" and rc: "rc = 0"
    by (auto simp: update_row_def split: option.splits sum.splits prod.splits)
  from write_row_Inr [OF wr] obtain t0 k v where
    t0: "ha_data w0 cur = Some t0" and k: "get_key (table (handlers w0 h)) new_data = Some k" and
    w1: "w1 = w0\<lparr> ha_data := (ha_data w0)(cur := Some (t0\<lparr> batch := batch t0 @ [Put k v] \<rparr>)) \<rparr>"
    by blast
  show ?thesis
  proof (cases "ko = kn")
    case True
    with d have "w0 = w" by simp
    with t0 k w1 ko kn rc True show ?thesis by auto
  next
    case False
    with d have "batch_append cur (Delete ko) w = Inr w0" by simp
    from batch_append_Inr [OF this] obtain t where
      t: "ha_data w cur = Some t" and
      w0: "w0 = w\<lparr> ha_data := (ha_data w)(cur := Some (t\<lparr> batch := batch t @ [Delete ko] \<rparr>)) \<rparr>"
      by blast
    from t0 w0 have t0': "t0 = t\<lparr> batch := batch t @ [Delete ko] \<rparr>" by simp
    from k w0 kn have "k = kn" by simp
    with t w0 w1 t0' ko kn rc False show ?thesis by auto
  qed
qed

lemma get_key_slice:
  "get_key tbl buf =
     (if kp_offset (key_part tbl) + prefix_width (kp_type (key_part tbl)) + kp_length (key_part tbl) \<le> length buf
      then Some (extract_key buf (key_part tbl)) else None)"
  by (auto simp: get_key_def mem_read_def prefix_width_def extract_key_def Let_def)

lemma get_key_Some: "get_key tbl buf = Some k \<Longrightarrow> k = extract_key buf (key_part tbl)"
  by (simp add: get_key_slice split: if_splits)

lemma index_read_lookup:
  assumes "index_read h rbuf key key_len uans w = Inr (rci, bi, wi)"
  shows "\<exists>p q. share_db w h = Inr p \<and>
         q = (if kp_flag (key_part (table (handlers w h))) AND HA_VAR_LENGTH_PART \<noteq> 0 then 2 else 0) \<and>
         q + unat (key_len - of_nat q) \<le> length key \<and>
         (rci = HA_ERR_END_OF_FILE \<longleftrightarrow>
            DB_Get (disk w) p (take (unat (key_len - of_nat q)) (drop q key)) = None) \<and>
         (rci \<noteq> HA_ERR_END_OF_FILE \<longrightarrow> rci = 0)"
proof -
  define q :: nat where "q = (if kp_flag (key_part (table (handlers w h))) AND HA_VAR_LENGTH_PART \<noteq> 0 then 2 else 0)"
  define skey where "skey = take (unat (key_len - of_nat q)) (drop q key)"
  have ik: "index_read_key (table (handlers w h)) key key_len =
              (if q + unat (key_len - of_nat q) \<le> length key then Some skey else None)"
    unfolding q_def skey_def index_read_key_def mem_read_def Let_def by (rule refl)
  from assms have rng: "q + unat (key_len - of_nat q) \<le> length key"
    unfolding index_read_def ik by (simp split: if_splits)
  with ik have ik': "index_read_key (table (handlers w h)) key key_len = Some skey" by simp
  from assms obtain p where p: "share_db w h = Inr p"
    unfolding index_read_def ik' by (cases "share_db w h") simp_all
  have rc: "(rci = HA_ERR_END_OF_FILE \<longleftrightarrow> DB_Get (disk w) p skey = None) \<and>
            (rci \<noteq> HA_ERR_END_OF_FILE \<longrightarrow> rci = 0)"
    using assms unfolding index_read_def ik' p
    by (cases "DB_Get (disk w) p skey") (auto simp: host_consts split: option.splits)
  show ?thesis
    apply (rule exI [of _ p])
    apply (rule exI [of _ q])
    using p rng rc unfolding q_def [symmetric] skey_def [symmetric]
    apply simp
    done
qed

lemma foldl_apply_op_other:
  "\<forall>bop \<in> set bs. op_key bop \<noteq> k \<Longrightarrow> foldl apply_op m bs k = m k"
proof (induction bs arbitrary: m)
  case Nil
  then show ?case by simp
next
  case (Cons bop bs)
  then have "foldl apply_op (apply_op m bop) bs k = apply_op m bop k" by simp
  moreover from Cons.prems have "apply_op m bop k = m k" by (cases bop) auto
  ultimately show ?case by simp
qed

lemma apply_batch_put:
  "\<forall>bop \<in> set bs. op_key bop \<noteq> k \<Longrightarrow> apply_batch (as @ Put k v # bs) m k = Some v"
  by (simp add: apply_batch_def foldl_apply_op_other)

lemma mem_write_same_length: "length src = length buf \<Longrightarrow> mem_write buf src = Some src"
  by (simp add: mem_write_def)

lemma share_db_frame:
  "handlers w' = handlers w \<Longrightarrow> heap w' = heap w \<Longrightarrow> share_db w' h = share_db w h"
  by (simp add: share_db_def split: option.splits)

section \<open>Scans are not supported\<close>

text \<open>
  Claim C6.  Every scan and traversal callback (\<^verbatim>\<open>index_next\<close>, \<^verbatim>\<open>index_prev\<close>,
  \<^verbatim>\<open>index_first\<close>, \<^verbatim>\<open>index_last\<close>, \<^verbatim>\<open>rnd_init\<close>, \<^verbatim>\<open>rnd_next\<close> and the
  position-based \<^verbatim>\<open>rnd_pos\<close>) returns the nonzero code \<^verbatim>\<open>HA_ERR_WRONG_COMMAND\<close> or
  \<^verbatim>\<open>HA_ERR_END_OF_FILE\<close>, for every handler, buffer and state, and leaves the row
  buffer as it was: no row is produced.
\<close>

theorem scans_unsupported:
  "fst (index_next h buf w) = HA_ERR_END_OF_FILE \<and> fst (snd (index_next h buf w)) = buf \<and>
   fst (index_prev h buf w) = HA_ERR_WRONG_COMMAND \<and> fst (snd (index_prev h buf w)) = buf \<and>
   fst (index_first h buf w) = HA_ERR_WRONG_COMMAND \<and> fst (snd (index_first h buf w)) = buf \<and>
   fst (index_last h buf w) = HA_ERR_WRONG_COMMAND \<and> fst (snd (index_last h buf w)) = buf \<and>
   fst (rnd_init h scan w) = HA_ERR_WRONG_COMMAND \<and>
   fst (rnd_next h buf w) = HA_ERR_WRONG_COMMAND \<and> fst (snd (rnd_next h buf w)) = buf \<and>
   fst (rnd_pos h buf pos w) = HA_ERR_WRONG_COMMAND \<and> fst (snd (rnd_pos h buf pos w)) = buf \<and>
   HA_ERR_END_OF_FILE \<noteq> 0 \<and> HA_ERR_WRONG_COMMAND \<noteq> 0"
  by (simp add: index_next_def index_prev_def index_first_def index_last_def rnd_init_def
      rnd_next_def rnd_pos_def host_consts)

section \<open>Unlock without a scope\<close>

text \<open>
  Claim C10.  When the session has no transaction scope, the unlock call of the lock hook
  returns 1 and the state is the one before the call: nothing is written to a store, and
  no scope is created or destroyed.
\<close>

theorem unlock_without_scope:
  "ha_data w cur = None \<Longrightarrow> external_lock this F_UNLCK io_ok cur w = Inr (1, w)"
  by (simp add: external_lock_def)

theorem unlock_without_scope_witness:
  "ha_data (init_world (\<lambda>s. s) (\<lambda>h. tbl4) Map.empty) 0 = None \<and>
   external_lock 0 F_UNLCK True 0 (init_world (\<lambda>s. s) (\<lambda>h. tbl4) Map.empty)
     = Inr (1, init_world (\<lambda>s. s) (\<lambda>h. tbl4) Map.empty)"
  using unlock_without_scope [of "init_world (\<lambda>s. s) (\<lambda>h. tbl4) Map.empty" 0 0 True]
  by (simp add: init_world_def)

section \<open>Creating a table\<close>

text \<open>
  Claim C4.  \<^verbatim>\<open>create\<close> returns \<^verbatim>\<open>HA_ERR_WRONG_INDEX\<close> (nonzero), without a call into
  LevelDB, for every table description whose number of key parts is not one or whose
  number of unique keys is not one.  With one key part and one unique key it opens the
  database with \<^verbatim>\<open>create_if_missing\<close> set, and returns 0 exactly when that open reports
  ok; the database then exists.
\<close>

theorem create_schema_check:
  "(key_parts ta \<noteq> 1 \<or> uniques ta \<noteq> 1 \<longrightarrow>
      fst (create h name ta io_ok w) = HA_ERR_WRONG_INDEX \<and> HA_ERR_WRONG_INDEX \<noteq> 0 \<and>
      ldb_log (snd (create h name ta io_ok w)) = ldb_log w \<and>
      disk (snd (create h name ta io_ok w)) = disk w) \<and>
   (key_parts ta = 1 \<and> uniques ta = 1 \<longrightarrow>
      ldb_log (snd (create h name ta io_ok w)) = ldb_log w @ [Call_Open name True 33554432] \<and>
      disk (snd (create h name ta io_ok w)) = snd (snd (DB_Open io_ok True name (disk w))) \<and>
      (fst (create h name ta io_ok w) = 0 \<longleftrightarrow> fst (DB_Open io_ok True name (disk w))) \<and>
      (fst (create h name ta io_ok w) = 0 \<longrightarrow> disk (snd (create h name ta io_ok w)) name \<noteq> None))"
  by (auto simp: create_def leveldb_open_def set_dbpath_def DB_Open_def host_consts
      split: prod.splits option.splits if_splits)

theorem create_schema_check_witness:
  "key_parts (tbl4\<lparr> key_parts := 2 \<rparr>) \<noteq> 1 \<and>
   fst (create 0 ''t'' (tbl4\<lparr> key_parts := 2 \<rparr>) True (init_world (\<lambda>s. s) (\<lambda>h. tbl4) Map.empty)) = 124 \<and>
   key_parts tbl4 = 1 \<and> uniques tbl4 = 1 \<and>
   fst (create 0 ''t'' tbl4 True (init_world (\<lambda>s. s) (\<lambda>h. tbl4) Map.empty)) = 0 \<and>
   fst (create 0 ''t'' tbl4 False (init_world (\<lambda>s. s) (\<lambda>h. tbl4) Map.empty)) \<noteq> 0 \<and>
   ldb_log (snd (create 0 ''t'' tbl4 True (init_world (\<lambda>s. s) (\<lambda>h. tbl4) Map.empty)))
     = [Call_Open ''t'' True 33554432]"
  using create_schema_check [of "tbl4\<lparr> key_parts := 2 \<rparr>" 0 "''t''" True "init_world (\<lambda>s. s) (\<lambda>h. tbl4) Map.empty"]
    create_schema_check [of tbl4 0 "''t''" True "init_world (\<lambda>s. s) (\<lambda>h. tbl4) Map.empty"]
    create_schema_check [of tbl4 0 "''t''" False "init_world (\<lambda>s. s) (\<lambda>h. tbl4) Map.empty"]
  by (simp add: tbl4_def init_world_def DB_Open_def host_consts)

section \<open>Updating a row\<close>

text \<open>
  Claim C3.  For rows \<open>old_data\<close> and \<open>new_data\<close> whose keys \<open>ko\<close> and \<open>kn\<close> lie in
  the buffers, in a session with a scope, \<^verbatim>\<open>update_row\<close> returns 0 and appends to the
  pending batch a \<open>Delete\<close> of \<open>ko\<close> immediately followed by a \<open>Put\<close> of \<open>kn\<close>
  with the new value when the keys differ, and only the \<open>Put\<close> when they are equal.
  Nothing else in the state changes.
\<close>

theorem update_row_stages:
  assumes "get_key (table (handlers w this)) old_data = Some ko"
    and "get_key (table (handlers w this)) new_data = Some kn"
    and "ha_data w cur = Some trx"
    and "my_compress new_data (rec_buff_length (table (handlers w this))) ans = Some (r, b, n)"
    and "mem_read b 0 n = Some v"
  shows "update_row this old_data new_data ans cur w =
           Inr (0, b, w\<lparr> ha_data := (ha_data w)(cur := Some (trx\<lparr> batch := batch trx @
                 (if ko \<noteq> kn then [Delete ko, Put kn v] else [Put kn v]) \<rparr>)) \<rparr>)"
  using assms by (simp add: update_row_def write_row_def batch_append_def)

theorem update_row_stages_witness:
  "update_row 0 row_abcd row_abce (Unchanged False) 0
       ((init_world (\<lambda>s. s) (\<lambda>h. tbl4) Map.empty)\<lparr> ha_data := (\<lambda>t. Some \<lparr> pobj = 0, batch = [] \<rparr>) \<rparr>)
     = Inr (0, row_abce,
         (init_world (\<lambda>s. s) (\<lambda>h. tbl4) Map.empty)\<lparr> ha_data := (\<lambda>t. Some \<lparr> pobj = 0, batch = [] \<rparr>)
            (0 := Some \<lparr> pobj = 0, batch = [Delete [97, 98, 99, 100], Put [97, 98, 99, 101] row_abce] \<rparr>) \<rparr>) \<and>
   update_row 0 row_abcd row_abcd (Unchanged False) 0
       ((init_world (\<lambda>s. s) (\<lambda>h. tbl4) Map.empty)\<lparr> ha_data := (\<lambda>t. Some \<lparr> pobj = 0, batch = [] \<rparr>) \<rparr>)
     = Inr (0, row_abcd,
         (init_world (\<lambda>s. s) (\<lambda>h. tbl4) Map.empty)\<lparr> ha_data := (\<lambda>t. Some \<lparr> pobj = 0, batch = [] \<rparr>)
            (0 := Some \<lparr> pobj = 0, batch = [Put [97, 98, 99, 100] row_abcd] \<rparr>) \<rparr>)"
  using update_row_stages [where w = "(init_world (\<lambda>s. s) (\<lambda>h. tbl4) Map.empty)\<lparr> ha_data := (\<lambda>t. Some \<lparr> pobj = 0, batch = [] \<rparr>) \<rparr>"
      and this = 0 and old_data = row_abcd and new_data = row_abce and cur = 0
      and ko = "[97, 98, 99, 100]" and kn = "[97, 98, 99, 101]"
      and trx = "\<lparr> pobj = 0, batch = [] \<rparr>" and ans = "Unchanged False" and r = False
      and b = row_abce and n = 16 and v = row_abce]
    update_row_stages [where w = "(init_world (\<lambda>s. s) (\<lambda>h. tbl4) Map.empty)\<lparr> ha_data := (\<lambda>t. Some \<lparr> pobj = 0, batch = [] \<rparr>) \<rparr>"
      and this = 0 and old_data = row_abcd and new_data = row_abcd and cur = 0
      and ko = "[97, 98, 99, 100]" and kn = "[97, 98, 99, 100]"
      and trx = "\<lparr> pobj = 0, batch = [] \<rparr>" and ans = "Unchanged False" and r = False
      and b = row_abcd and n = 16 and v = row_abcd]
  by (simp add: init_world_def tbl4_def row_abcd_def row_abce_def get_key_def mem_read_def)

section \<open>Commit at unlock\<close>

text \<open>
  Claim C1 says that unlock commits the pending batch in one synced call, clears the scope,
  and reports a failed commit by a nonzero return.  The code reaches the store through
  \<^verbatim>\<open>trx->pobj->share->db\<close> without a check.  Take the start-up state with no database
  for \<^verbatim>\<open>t\<close> on disk.  \<^verbatim>\<open>open\<close> of \<^verbatim>\<open>t\<close> returns 0 and leaves a null database
  handle in the share (the defect of claim C2); the lock call creates the scope and
  \<^verbatim>\<open>write_row\<close> stages a \<open>Put\<close>.  The process is then in a reachable state with a
  scope and one staged operation, and the unlock call dereferences the null handle: it
  makes no \<open>Write\<close>, returns nothing to the caller and leaves the scope in place.
\<close>

theorem unlock_null_handle:
  "\<exists>w1 w.
     ldb_open 0 ''t'' (Some 0) True True (init_world (\<lambda>s. s) (\<lambda>h. tbl4) Map.empty) = Inr (0, w1) \<and>
     run [(0, C_external_lock 0 1 True), (0, C_write_row 0 row_abcd (Unchanged False))] w1 = Inr w \<and>
     reachable w \<and>
     ha_data w 0 = Some \<lparr> pobj = 0, batch = [Put [97, 98, 99, 100] row_abcd] \<rparr> \<and>
     share_db w 0 = Inl NullPointer \<and>
     external_lock 0 F_UNLCK True 0 w = Inl NullPointer \<and>
     external_lock 0 F_UNLCK False 0 w = Inl NullPointer"
proof -
  let ?i = "init_world (\<lambda>s. s) (\<lambda>h. tbl4) Map.empty"
  let ?cs = "[(0, C_external_lock 0 1 True), (0, C_write_row 0 row_abcd (Unchanged False))]"
  have "\<exists>w1 w. ldb_open 0 ''t'' (Some 0) True True ?i = Inr (0, w1) \<and>
          run ?cs w1 = Inr w \<and> run_admissible ?cs w1 \<and>
          ha_data w 0 = Some \<lparr> pobj = 0, batch = [Put [97, 98, 99, 100] row_abcd] \<rparr> \<and>
          share_db w 0 = Inl NullPointer"
    by (simp add: init_world_def tbl4_def row_abcd_def ldb_open_def get_share_def leveldb_open_def
        DB_Open_def set_share_def external_lock_def write_row_def get_key_def mem_read_def
        batch_append_def drop_buf_def share_db_def host_consts)
  then obtain w1 w where o: "ldb_open 0 ''t'' (Some 0) True True ?i = Inr (0, w1)"
    and r: "run ?cs w1 = Inr w" and ra: "run_admissible ?cs w1"
    and t: "ha_data w 0 = Some \<lparr> pobj = 0, batch = [Put [97, 98, 99, 100] row_abcd] \<rparr>"
    and p: "share_db w 0 = Inl NullPointer"
    by blast
  have "admissible (C_open 0 ''t'' (Some 0) True True) ?i" by (simp add: init_world_def)
  with reachable_init have r1: "reachable w1"
    by (rule reachable_step [where cur = 0]) (simp add: o)
  have re: "reachable w" using r1 ra r by (rule run_reachable)
  have el: "external_lock 0 F_UNLCK io 0 w = Inl NullPointer" for io
    using t p by (simp add: external_lock_def)
  from o r re t p el show ?thesis by blast
qed

text \<open>
  What does hold: in a reachable state where the handler that owns the scope has a database
  handle \<open>p\<close>, the unlock call returns and makes exactly one more LevelDB call, a
  \<open>Write\<close> of the pending batch to \<open>p\<close> with \<^verbatim>\<open>sync\<close> set.  It returns 0 exactly when
  the write is ok, and then the batch has been applied to the database; when the write
  fails it returns 1 and the disk is as before.  In both outcomes the session's slot is
  empty afterwards, so the next lock call creates a new scope with an empty batch.
\<close>

lemma unlock_commits_with_handle:
  assumes "reachable w" and "ha_data w cur = Some trx" and "share_db w (pobj trx) = Inr p"
  shows "\<exists>rc w'. external_lock this F_UNLCK io_ok cur w = Inr (rc, w') \<and>
      ldb_log w' = ldb_log w @ [Call_Write p True (batch trx)] \<and>
      ha_data w' cur = None \<and>
      (rc = 0 \<longleftrightarrow> fst (DB_Write io_ok p (batch trx) (disk w))) \<and>
      (rc = 0 \<longrightarrow> (\<exists>m. disk w p = Some m \<and> disk w' = (disk w)(p \<mapsto> apply_batch (batch trx) m))) \<and>
      (rc \<noteq> 0 \<longrightarrow> rc = 1 \<and> disk w' = disk w) \<and>
      (\<forall>h lock_type io. lock_type \<noteq> F_UNLCK \<longrightarrow>
         (\<exists>w''. external_lock h lock_type io cur w' = Inr (0, w'') \<and>
                ha_data w'' cur = Some \<lparr> pobj = h, batch = [] \<rparr>))"
proof -
  have sync: "wo_sync w" using assms(1,3) by (rule reachable_sync)
  obtain s d' where dw: "DB_Write io_ok p (batch trx) (disk w) = (s, d')"
    by (cases "DB_Write io_ok p (batch trx) (disk w)") auto
  let ?w' = "free_trx (Some trx) cur
               (w\<lparr> disk := d', ldb_log := ldb_log w @ [Call_Write p (wo_sync w) (batch trx)] \<rparr>)"
  have el: "external_lock this F_UNLCK io_ok cur w = Inr (if s then 0 else 1, ?w')"
    using assms(2,3) dw by (simp add: external_lock_def)
  have d: "(s \<longrightarrow> (\<exists>m. disk w p = Some m \<and> d' = (disk w)(p \<mapsto> apply_batch (batch trx) m))) \<and>
           (\<not> s \<longrightarrow> d' = disk w)"
    using dw by (auto simp: DB_Write_def split: option.splits if_splits)
  have later: "\<And>h lock_type io. lock_type \<noteq> F_UNLCK \<Longrightarrow>
         (\<exists>w''. external_lock h lock_type io cur ?w' = Inr (0, w'') \<and>
                ha_data w'' cur = Some \<lparr> pobj = h, batch = [] \<rparr>)"
    by (simp add: external_lock_def free_trx_def)
  show ?thesis
    apply (rule exI [of _ "if s then 0 else 1"])
    apply (rule exI [of _ ?w'])
    using el d sync dw later
    apply (simp add: free_trx_def)
    done
qed

lemma unlock_commits_example:
  "\<exists>w. run [(0, C_open 0 ''t'' (Some 0) True True), (0, C_external_lock 0 1 True),
            (0, C_write_row 0 row_abcd (Unchanged False))]
           (init_world (\<lambda>s. s) (\<lambda>h. tbl4) [''t'' \<mapsto> Map.empty]) = Inr w \<and>
        reachable w \<and>
        ha_data w 0 = Some \<lparr> pobj = 0, batch = [Put [97, 98, 99, 100] row_abcd] \<rparr> \<and>
        share_db w 0 = Inr ''t'' \<and>
        (\<exists>w'. external_lock 0 F_UNLCK True 0 w = Inr (0, w') \<and>
              ldb_log w' = ldb_log w @ [Call_Write ''t'' True [Put [97, 98, 99, 100] row_abcd]] \<and>
              ha_data w' 0 = None \<and>
              DB_Get (disk w') ''t'' [97, 98, 99, 100] = Some row_abcd \<and>
              (1 \<noteq> F_UNLCK \<and>
               (\<exists>w''. external_lock 0 1 True 0 w' = Inr (0, w'') \<and>
                   ha_data w'' 0 = Some \<lparr> pobj = 0, batch = [] \<rparr>))) \<and>
        (\<exists>w'. external_lock 0 F_UNLCK False 0 w = Inr (1, w') \<and>
              ha_data w' 0 = None \<and>
              DB_Get (disk w') ''t'' [97, 98, 99, 100] = None)"
proof -
  let ?cs = "[(0, C_open 0 ''t'' (Some 0) True True), (0, C_external_lock 0 1 True),
            (0, C_write_row 0 row_abcd (Unchanged False))]"
  let ?i = "init_world (\<lambda>s. s) (\<lambda>h. tbl4) [''t'' \<mapsto> Map.empty]"
  have "\<exists>w. run ?cs ?i = Inr w \<and>
          ha_data w 0 = Some \<lparr> pobj = 0, batch = [Put [97, 98, 99, 100] row_abcd] \<rparr> \<and>
          share_db w 0 = Inr ''t'' \<and> disk w = [''t'' \<mapsto> Map.empty]"
    by (simp add: init_world_def tbl4_def row_abcd_def ldb_open_def get_share_def leveldb_open_def
        DB_Open_def set_share_def external_lock_def write_row_def get_key_def mem_read_def
        batch_append_def drop_buf_def share_db_def host_consts)
  then obtain w where r: "run ?cs ?i = Inr w"
    and t: "ha_data w 0 = Some \<lparr> pobj = 0, batch = [Put [97, 98, 99, 100] row_abcd] \<rparr>"
    and p: "share_db w 0 = Inr ''t''" and d: "disk w = [''t'' \<mapsto> Map.empty]"
    by blast
  have "run_admissible ?cs ?i"
    by (simp add: init_world_def tbl4_def row_abcd_def ldb_open_def get_share_def leveldb_open_def
        DB_Open_def set_share_def external_lock_def write_row_def get_key_def mem_read_def
        batch_append_def drop_buf_def share_db_def host_consts)
  with reachable_init have re: "reachable w" using r by (rule run_reachable)
  have p': "share_db w (pobj \<lparr> pobj = 0, batch = [Put [97, 98, 99, 100] row_abcd] \<rparr>) = Inr ''t''"
    using p by simp
  have ne: "(1::int) \<noteq> F_UNLCK" by (simp add: F_UNLCK_def)
  from unlock_commits_with_handle [OF re t p', of 0 True] obtain rc w' where
    el: "external_lock 0 F_UNLCK True 0 w = Inr (rc, w')" and
    lg: "ldb_log w' = ldb_log w @ [Call_Write ''t'' True [Put [97, 98, 99, 100] row_abcd]]" and
    hd: "ha_data w' 0 = None" and
    rc: "rc = 0 \<longleftrightarrow> fst (DB_Write True ''t'' [Put [97, 98, 99, 100] row_abcd] (disk w))" and
    dk: "rc = 0 \<longrightarrow> (\<exists>m. disk w ''t'' = Some m \<and>
            disk w' = (disk w)(''t'' \<mapsto> apply_batch [Put [97, 98, 99, 100] row_abcd] m))" and
    lt: "\<forall>h lock_type io. lock_type \<noteq> F_UNLCK \<longrightarrow>
         (\<exists>w''. external_lock h lock_type io 0 w' = Inr (0, w'') \<and>
                ha_data w'' 0 = Some \<lparr> pobj = h, batch = [] \<rparr>)"
    by auto
  from rc d have rc0: "rc = 0" by (simp add: DB_Write_def)
  with dk d have "DB_Get (disk w') ''t'' [97, 98, 99, 100] = Some row_abcd"
    by (auto simp: DB_Get_def apply_batch_def)
  moreover from lt ne have "\<exists>w''. external_lock 0 1 True 0 w' = Inr (0, w'') \<and>
                   ha_data w'' 0 = Some \<lparr> pobj = 0, batch = [] \<rparr>" by blast
  ultimately have ok: "\<exists>w'. external_lock 0 F_UNLCK True 0 w = Inr (0, w') \<and>
              ldb_log w' = ldb_log w @ [Call_Write ''t'' True [Put [97, 98, 99, 100] row_abcd]] \<and>
              ha_data w' 0 = None \<and>
              DB_Get (disk w') ''t'' [97, 98, 99, 100] = Some row_abcd \<and>
              (1 \<noteq> F_UNLCK \<and>
               (\<exists>w''. external_lock 0 1 True 0 w' = Inr (0, w'') \<and>
                   ha_data w'' 0 = Some \<lparr> pobj = 0, batch = [] \<rparr>))"
    using el lg hd rc0 ne by blast
  from unlock_commits_with_handle [OF re t p', of 0 False] d
  have ko: "\<exists>w'. external_lock 0 F_UNLCK False 0 w = Inr (1, w') \<and>
              ha_data w' 0 = None \<and>
              DB_Get (disk w') ''t'' [97, 98, 99, 100] = None"
    by (auto simp: DB_Write_def DB_Get_def)
  from r re t p ok ko show ?thesis by blast
qed

section \<open>The store is written only at unlock\<close>

text \<open>
  Claim C9.  For every call of the handler interface that returns: if it is
  \<^verbatim>\<open>write_row\<close>, \<^verbatim>\<open>update_row\<close> or \<^verbatim>\<open>delete_row\<close>, the session has a scope and
  the only change of the state is that operations are appended to its pending batch (the
  disk and the record of LevelDB calls are as before); and if it is not the unlock call of
  the lock hook, then no \<open>Write\<close> is made and no database that exists before and after
  the call has changed contents.
\<close>

theorem writes_only_at_unlock:
  assumes "step cur c w = Inr (rc, w')"
  shows "(is_mutation c \<longrightarrow>
            (\<exists>t bops. ha_data w cur = Some t \<and> bops \<noteq> [] \<and>
               w' = w\<lparr> ha_data := (ha_data w)(cur := Some (t\<lparr> batch := batch t @ bops \<rparr>)) \<rparr>) \<and>
            disk w' = disk w \<and> ldb_log w' = ldb_log w) \<and>
         (\<not> is_unlock c \<longrightarrow>
            filter is_write (ldb_log w') = filter is_write (ldb_log w) \<and>
            (\<forall>p m m'. disk w p = Some m \<longrightarrow> disk w' p = Some m' \<longrightarrow> m' = m))"
proof (cases c)
  case (C_open h name m i ins)
  with assms show ?thesis
    by (auto simp: ldb_open_def set_share_def get_share_def leveldb_open_def DB_Open_def Let_def
        split: sum.splits option.splits prod.splits if_splits)
next
  case (C_close h)
  with assms show ?thesis
    by (auto simp: ldb_close_def free_share_def Let_def split: option.splits if_splits)
next
  case (C_create h name ta io)
  with assms show ?thesis
    by (auto simp: create_def leveldb_open_def DB_Open_def set_dbpath_def
        split: if_splits prod.splits option.splits)
next
  case (C_delete_table h name)
  with assms show ?thesis
    by (auto simp: delete_table_def set_dbpath_def Let_def split: if_splits)
next
  case (C_write_row h buf ans)
  with assms obtain b where "write_row h buf ans cur w = Inr (rc, b, w')"
    by (auto simp: drop_buf_def split: sum.splits)
  from write_row_Inr [OF this] C_write_row show ?thesis by auto
next
  case (C_update_row h o1 n1 ans)
  with assms obtain b where "update_row h o1 n1 ans cur w = Inr (rc, b, w')"
    by (auto simp: drop_buf_def split: sum.splits)
  from update_row_Inr [OF this] obtain t ko kn v where
    "ha_data w cur = Some t" and
    "w' = w\<lparr> ha_data := (ha_data w)(cur := Some (t\<lparr> batch := batch t @
               (if ko \<noteq> kn then [Delete ko, Put kn v] else [Put kn v]) \<rparr>)) \<rparr>" by blast
  then have "(\<exists>t bops. ha_data w cur = Some t \<and> bops \<noteq> [] \<and>
               w' = w\<lparr> ha_data := (ha_data w)(cur := Some (t\<lparr> batch := batch t @ bops \<rparr>)) \<rparr>) \<and>
            disk w' = disk w \<and> ldb_log w' = ldb_log w"
    by (cases "ko = kn") auto
  with C_update_row show ?thesis by auto
next
  case (C_delete_row h buf)
  with assms have "delete_row h buf cur w = Inr (rc, w')" by simp
  from delete_row_Inr [OF this] C_delete_row show ?thesis by auto
next
  case (C_index_read h buf key kl ans)
  with assms show ?thesis
    by (auto simp: drop_buf_def index_read_def set_status_def
        split: sum.splits option.splits prod.splits)
next
  case (C_external_lock h lt io)
  with assms show ?thesis
    by (auto simp: external_lock_def split: option.splits if_splits)
qed (use assms in \<open>auto simp: drop_buf_def rename_table_def index_next_def index_prev_def
      index_first_def index_last_def rnd_init_def rnd_end_def rnd_next_def rnd_pos_def info_def
      extra_def delete_all_rows_def truncate_def set_status_def\<close>)

theorem writes_only_at_unlock_witness:
  "step 0 (C_delete_row 0 row_abcd) world_open
     = Inr (0, world_open\<lparr> ha_data := (ha_data world_open)
                  (0 := Some \<lparr> pobj = 0, batch = [Delete [97, 98, 99, 100]] \<rparr>) \<rparr>) \<and>
   is_mutation (C_delete_row 0 row_abcd) \<and> \<not> is_unlock (C_delete_row 0 row_abcd) \<and>
   disk world_open ''t'' = Some (Map.empty([97, 98, 99, 100] \<mapsto> row_abcd)) \<and>
   disk (world_open\<lparr> ha_data := (ha_data world_open)
                  (0 := Some \<lparr> pobj = 0, batch = [Delete [97, 98, 99, 100]] \<rparr>) \<rparr>) ''t''
     = Some (Map.empty([97, 98, 99, 100] \<mapsto> row_abcd)) \<and>
   filter is_write (ldb_log (world_open\<lparr> ha_data := (ha_data world_open)
                  (0 := Some \<lparr> pobj = 0, batch = [Delete [97, 98, 99, 100]] \<rparr>) \<rparr>)) = []"
proof -
  let ?w' = "world_open\<lparr> ha_data := (ha_data world_open)
                  (0 := Some \<lparr> pobj = 0, batch = [Delete [97, 98, 99, 100]] \<rparr>) \<rparr>"
  have st: "step 0 (C_delete_row 0 row_abcd) world_open = Inr (0, ?w')"
    by (simp add: world_open_def tbl4_def row_abcd_def delete_row_def get_key_def mem_read_def
        batch_append_def)
  from writes_only_at_unlock [OF st] st show ?thesis
    by (simp add: world_open_def)
qed

section \<open>Reference counting of shares\<close>



section \<open>Key extraction\<close>

text \<open>
  Claim C8, as amended.  \<^verbatim>\<open>get_key\<close> returns the slice of the row buffer that the
  specification describes (offset plus prefix width, declared length; prefix width 1 for
  \<^verbatim>\<open>VARTEXT1\<close> and \<^verbatim>\<open>VARBINARY1\<close>, 2 for \<^verbatim>\<open>VARTEXT2\<close> and \<^verbatim>\<open>VARBINARY2\<close>,
  0 otherwise) whenever the slice lies in the buffer, and \<^verbatim>\<open>write_row\<close>,
  \<^verbatim>\<open>delete_row\<close> and \<^verbatim>\<open>update_row\<close> stage their operations under the keys this rule
  gives.  A point lookup follows another rule: it looks up the bytes of the search key
  from position \<open>q\<close> up to \<^verbatim>\<open>key_len\<close>, where \<open>q\<close> is 2 when the key part has the
  flag \<^verbatim>\<open>HA_VAR_LENGTH_PART\<close> and 0 otherwise; offset, declared length and key type
  play no part in it.
\<close>

theorem key_extraction_rule:
  "get_key tbl buf =
     (if kp_offset (key_part tbl) + prefix_width (kp_type (key_part tbl)) + kp_length (key_part tbl) \<le> length buf
      then Some (extract_key buf (key_part tbl)) else None) \<and>
   (write_row h buf ans cur w = Inr (rc, b, wa) \<longrightarrow>
      (\<exists>t v. ha_data w cur = Some t \<and>
         wa = w\<lparr> ha_data := (ha_data w)(cur := Some (t\<lparr> batch := batch t @
                [Put (extract_key buf (key_part (table (handlers w h)))) v] \<rparr>)) \<rparr>)) \<and>
   (delete_row h buf cur w = Inr (rcd, wd) \<longrightarrow>
      (\<exists>t. ha_data w cur = Some t \<and>
         wd = w\<lparr> ha_data := (ha_data w)(cur := Some (t\<lparr> batch := batch t @
                [Delete (extract_key buf (key_part (table (handlers w h))))] \<rparr>)) \<rparr>)) \<and>
   (update_row h old_data new_data ans cur w = Inr (rcu, bu, wu) \<longrightarrow>
      (\<exists>t v. ha_data w cur = Some t \<and>
         wu = w\<lparr> ha_data := (ha_data w)(cur := Some (t\<lparr> batch := batch t @
                (if extract_key old_data (key_part (table (handlers w h)))
                    \<noteq> extract_key new_data (key_part (table (handlers w h)))
                 then [Delete (extract_key old_data (key_part (table (handlers w h)))),
                       Put (extract_key new_data (key_part (table (handlers w h)))) v]
                 else [Put (extract_key new_data (key_part (table (handlers w h)))) v]) \<rparr>)) \<rparr>)) \<and>
   (index_read h rbuf key key_len uans w = Inr (rci, bi, wi) \<longrightarrow>
      (\<exists>p q. share_db w h = Inr p \<and>
         q = (if kp_flag (key_part (table (handlers w h))) AND HA_VAR_LENGTH_PART \<noteq> 0 then 2 else 0) \<and>
         q + unat (key_len - of_nat q) \<le> length key \<and>
         (rci = HA_ERR_END_OF_FILE \<longleftrightarrow>
            DB_Get (disk w) p (take (unat (key_len - of_nat q)) (drop q key)) = None) \<and>
         (rci \<noteq> HA_ERR_END_OF_FILE \<longrightarrow> rci = 0)))"
proof -
  have A: "get_key tbl buf =
     (if kp_offset (key_part tbl) + prefix_width (kp_type (key_part tbl)) + kp_length (key_part tbl) \<le> length buf
      then Some (extract_key buf (key_part tbl)) else None)"
    by (rule get_key_slice)
  have B: "write_row h buf ans cur w = Inr (rc, b, wa) \<longrightarrow>
      (\<exists>t v. ha_data w cur = Some t \<and>
         wa = w\<lparr> ha_data := (ha_data w)(cur := Some (t\<lparr> batch := batch t @
                [Put (extract_key buf (key_part (table (handlers w h)))) v] \<rparr>)) \<rparr>)"
    using write_row_Inr [of h buf ans cur w rc b wa] get_key_Some by blast
  have C: "delete_row h buf cur w = Inr (rcd, wd) \<longrightarrow>
      (\<exists>t. ha_data w cur = Some t \<and>
         wd = w\<lparr> ha_data := (ha_data w)(cur := Some (t\<lparr> batch := batch t @
                [Delete (extract_key buf (key_part (table (handlers w h))))] \<rparr>)) \<rparr>)"
    using delete_row_Inr [of h buf cur w rcd wd] get_key_Some by blast
  have D: "update_row h old_data new_data ans cur w = Inr (rcu, bu, wu) \<longrightarrow>
      (\<exists>t v. ha_data w cur = Some t \<and>
         wu = w\<lparr> ha_data := (ha_data w)(cur := Some (t\<lparr> batch := batch t @
                (if extract_key old_data (key_part (table (handlers w h)))
                    \<noteq> extract_key new_data (key_part (table (handlers w h)))
                 then [Delete (extract_key old_data (key_part (table (handlers w h)))),
                       Put (extract_key new_data (key_part (table (handlers w h)))) v]
                 else [Put (extract_key new_data (key_part (table (handlers w h)))) v]) \<rparr>)) \<rparr>)"
  proof
    assume "update_row h old_data new_data ans cur w = Inr (rcu, bu, wu)"
    from update_row_Inr [OF this] obtain t ko kn v where
      t: "ha_data w cur = Some t" and
      ko: "get_key (table (handlers w h)) old_data = Some ko" and
      kn: "get_key (table (handlers w h)) new_data = Some kn" and
      wu: "wu = w\<lparr> ha_data := (ha_data w)(cur := Some (t\<lparr> batch := batch t @
               (if ko \<noteq> kn then [Delete ko, Put kn v] else [Put kn v]) \<rparr>)) \<rparr>" by blast
    from get_key_Some [OF ko] get_key_Some [OF kn] t wu
    show "\<exists>t v. ha_data w cur = Some t \<and>
         wu = w\<lparr> ha_data := (ha_data w)(cur := Some (t\<lparr> batch := batch t @
                (if extract_key old_data (key_part (table (handlers w h)))
                    \<noteq> extract_key new_data (key_part (table (handlers w h)))
                 then [Delete (extract_key old_data (key_part (table (handlers w h)))),
                       Put (extract_key new_data (key_part (table (handlers w h)))) v]
                 else [Put (extract_key new_data (key_part (table (handlers w h)))) v]) \<rparr>)) \<rparr>"
      by blast
  qed
  have E: "index_read h rbuf key key_len uans w = Inr (rci, bi, wi) \<longrightarrow>
      (\<exists>p q. share_db w h = Inr p \<and>
         q = (if kp_flag (key_part (table (handlers w h))) AND HA_VAR_LENGTH_PART \<noteq> 0 then 2 else 0) \<and>
         q + unat (key_len - of_nat q) \<le> length key \<and>
         (rci = HA_ERR_END_OF_FILE \<longleftrightarrow>
            DB_Get (disk w) p (take (unat (key_len - of_nat q)) (drop q key)) = None) \<and>
         (rci \<noteq> HA_ERR_END_OF_FILE \<longrightarrow> rci = 0))"
    by (rule impI) (erule index_read_lookup)
  from A B C D E show ?thesis by blast
qed

theorem key_extraction_rule_witness:
  "get_key tbl4 row_abcd = Some (extract_key row_abcd (key_part tbl4)) \<and>
   extract_key row_abcd (key_part tbl4) = [97, 98, 99, 100] \<and>
   write_row 0 row_abcd (Unchanged False) 0 world_open
     = Inr (0, row_abcd, world_open\<lparr> ha_data := (ha_data world_open)
              (0 := Some \<lparr> pobj = 0, batch = [Put [97, 98, 99, 100] row_abcd] \<rparr>) \<rparr>) \<and>
   delete_row 0 row_abcd 0 world_open
     = Inr (0, world_open\<lparr> ha_data := (ha_data world_open)
              (0 := Some \<lparr> pobj = 0, batch = [Delete [97, 98, 99, 100]] \<rparr>) \<rparr>) \<and>
   update_row 0 row_abcd row_abce (Unchanged False) 0 world_open
     = Inr (0, row_abce, world_open\<lparr> ha_data := (ha_data world_open)
              (0 := Some \<lparr> pobj = 0, batch = [Delete [97, 98, 99, 100], Put [97, 98, 99, 101] row_abce] \<rparr>) \<rparr>) \<and>
   index_read 0 (replicate 16 0) [97, 98, 99, 100] 4 None world_open
     = Inr (0, row_abcd, set_status 0 0 world_open) \<and>
   (\<exists>p. share_db world_open 0 = Inr p \<and> DB_Get (disk world_open) p [97, 98, 99, 100] \<noteq> None)"
proof -
  let ?ww = "world_open\<lparr> ha_data := (ha_data world_open)
              (0 := Some \<lparr> pobj = 0, batch = [Put [97, 98, 99, 100] row_abcd] \<rparr>) \<rparr>"
  let ?wd = "world_open\<lparr> ha_data := (ha_data world_open)
              (0 := Some \<lparr> pobj = 0, batch = [Delete [97, 98, 99, 100]] \<rparr>) \<rparr>"
  let ?wu = "world_open\<lparr> ha_data := (ha_data world_open)
              (0 := Some \<lparr> pobj = 0, batch = [Delete [97, 98, 99, 100], Put [97, 98, 99, 101] row_abce] \<rparr>) \<rparr>"
  have tb: "table (handlers world_open 0) = tbl4" and hd: "ha_data world_open 0 = Some \<lparr> pobj = 0, batch = [] \<rparr>"
    by (simp_all add: world_open_def)
  have k1: "get_key tbl4 row_abcd = Some [97, 98, 99, 100]"
    and k2: "get_key tbl4 row_abce = Some [97, 98, 99, 101]"
    by (simp_all add: get_key_def tbl4_def row_abcd_def row_abce_def mem_read_def)
  have rl: "rec_buff_length tbl4 = 16" "length row_abcd = 16" "length row_abce = 16"
    by (simp_all add: tbl4_def row_abcd_def row_abce_def)
  have ev_w: "write_row 0 row_abcd (Unchanged False) 0 world_open = Inr (0, row_abcd, ?ww)"
    by (simp add: write_row_def tb k1 rl mem_read_def batch_append_def hd)
  have ev_d: "delete_row 0 row_abcd 0 world_open = Inr (0, ?wd)"
    by (simp add: delete_row_def tb k1 batch_append_def hd)
  have ev_u: "update_row 0 row_abcd row_abce (Unchanged False) 0 world_open = Inr (0, row_abce, ?wu)"
    by (simp add: update_row_def write_row_def tb k1 k2 rl mem_read_def batch_append_def hd)
  have ik: "index_read_key tbl4 [97, 98, 99, 100] 4 = Some [97, 98, 99, 100]"
    by (simp add: index_read_key_def tbl4_def mem_read_def host_consts)
  have sd: "share_db world_open 0 = Inr ''t''"
    by (simp add: share_db_def world_open_def)
  have g: "DB_Get (disk world_open) ''t'' [97, 98, 99, 100] = Some row_abcd"
    by (simp add: DB_Get_def world_open_def)
  have ev_i: "index_read 0 (replicate 16 0) [97, 98, 99, 100] 4 None world_open
     = Inr (0, row_abcd, set_status 0 0 world_open)"
    by (simp add: index_read_def tb ik sd g mem_write_def rl)
  note K = key_extraction_rule [where tbl = tbl4 and buf = row_abcd and h = 0 and ans = "Unchanged False"
      and cur = 0 and w = world_open and rc = 0 and b = row_abcd and wa = ?ww
      and rcd = 0 and wd = ?wd
      and old_data = row_abcd and new_data = row_abce and rcu = 0 and bu = row_abce and wu = ?wu
      and rbuf = "replicate 16 0" and key = "[97, 98, 99, 100]" and key_len = 4 and uans = None
      and rci = 0 and bi = row_abcd and wi = "set_status 0 0 world_open"]
  from K have A: "get_key tbl4 row_abcd =
     (if kp_offset (key_part tbl4) + prefix_width (kp_type (key_part tbl4)) + kp_length (key_part tbl4) \<le> length row_abcd
      then Some (extract_key row_abcd (key_part tbl4)) else None)"
    by (rule conjunct1)
  have a1: "get_key tbl4 row_abcd = Some (extract_key row_abcd (key_part tbl4))"
    using A k1 by (simp split: if_splits)
  with k1 have a2: "extract_key row_abcd (key_part tbl4) = [97, 98, 99, 100]" by simp
  from K ev_i have "\<exists>p q. share_db world_open 0 = Inr p \<and>
         q = (if kp_flag (key_part (table (handlers world_open 0))) AND HA_VAR_LENGTH_PART \<noteq> 0 then 2 else 0) \<and>
         q + unat (4 - of_nat q :: 32 word) \<le> length [97, 98, 99, 100 :: byte] \<and>
         ((0::int) = HA_ERR_END_OF_FILE \<longleftrightarrow>
            DB_Get (disk world_open) p (take (unat (4 - of_nat q :: 32 word)) (drop q [97, 98, 99, 100])) = None) \<and>
         ((0::int) \<noteq> HA_ERR_END_OF_FILE \<longrightarrow> (0::int) = 0)"
    by blast
  then have e: "\<exists>p. share_db world_open 0 = Inr p \<and> DB_Get (disk world_open) p [97, 98, 99, 100] \<noteq> None"
    by (auto simp: tb tbl4_def host_consts)
  from a1 a2 ev_w ev_d ev_u ev_i e show ?thesis by blast
qed

text \<open>
  Claim C8 as it was stated says that point lookups apply the rule of \<^verbatim>\<open>get_key\<close>.
  For a key part of type \<^verbatim>\<open>VARTEXT1\<close> with the variable-length flag and the search key
  \<open>[2, 0, 97, 98]\<close> of length 4, the lookup uses the bytes after the first two,
  \<open>[97, 98]\<close>, while the rule of \<^verbatim>\<open>get_key\<close> on the same buffer skips one byte and
  gives \<open>[0, 97]\<close>.
\<close>

theorem lookup_key_rule_counterexample:
  "index_read_key tbl_var [2, 0, 97, 98] 4 = Some [97, 98] \<and>
   get_key tbl_var [2, 0, 97, 98] = Some [0, 97] \<and>
   index_read_key tbl_var [2, 0, 97, 98] 4 \<noteq> get_key tbl_var [2, 0, 97, 98]"
  by (simp add: index_read_key_def get_key_def tbl_var_def mem_read_def host_consts)

section \<open>Opening a table whose database cannot be opened\<close>

text \<open>
  Claim C2 says that \<^verbatim>\<open>open\<close> fails when LevelDB reports a status that is not ok.
  The code does not do so: \<^verbatim>\<open>get_share\<close> stores the status of \<^verbatim>\<open>leveldb_open\<close> in a
  local variable and never reads it.  At start-up with an empty disk, \<^verbatim>\<open>DB::Open\<close> of
  \<^verbatim>\<open>t\<close> without \<^verbatim>\<open>create_if_missing\<close> is not ok, yet \<^verbatim>\<open>open\<close> returns 0 and
  registers a share whose database handle is null; the next point lookup through that
  handler dereferences the null handle.
\<close>

theorem open_ignores_open_status:
  "\<not> fst (DB_Open True False ''t'' Map.empty) \<and>
   (case ldb_open 0 ''t'' (Some 0) True True (init_world (\<lambda>s. s) (\<lambda>h. tbl4) Map.empty) of
      Inl f \<Rightarrow> False
    | Inr (rc, w') \<Rightarrow>
        rc = 0 \<and> ldb_log w' = [Call_Open ''t'' False 33554432] \<and>
        share_db w' 0 = Inl NullPointer \<and>
        index_read 0 row_abcd [97, 98, 99, 100] 4 None w' = Inl NullPointer)"
  by (simp add: init_world_def ldb_open_def get_share_def leveldb_open_def DB_Open_def
      set_share_def share_db_def index_read_def index_read_key_def mem_read_def tbl4_def
      host_consts)

section \<open>Writing a row and reading it back\<close>

text \<open>
  Claim C5 says that a row written and committed is returned unchanged by a point lookup
  of its key.  \<^verbatim>\<open>write_row\<close> stores the row compressed or, when \<^verbatim>\<open>my_compress\<close>
  leaves it alone, as it is, and keeps no mark of which; \<^verbatim>\<open>index_read\<close> always calls
  \<^verbatim>\<open>my_uncompress\<close> on the stored bytes and does not read its result.  Take the table
  with the nine-byte key and the 16-byte row \<open>row_z\<close>.  The row is shorter than the 50
  bytes below which \<^verbatim>\<open>my_compress\<close> does nothing, so it is stored as it is.  Its key
  is a complete zlib stream of the string \<^verbatim>\<open>a\<close>, so zlib inflates the stored bytes to
  the one byte 97, which \<^verbatim>\<open>my_uncompress\<close> copies over the start of the buffer.  After
  open, lock, \<^verbatim>\<open>write_row\<close> and a successful unlock, the lookup of the row's key
  returns 0 and a buffer whose first byte is 97 instead of 120.
\<close>

theorem roundtrip_fails_on_deflate_row:
  "(case run [(0, C_open 0 ''t'' (Some 0) True True), (0, C_external_lock 0 1 True),
             (0, C_write_row 0 row_z (Unchanged False)), (0, C_external_lock 0 F_UNLCK True)]
            (init_world (\<lambda>s. s) (\<lambda>h. tbl9) [''t'' \<mapsto> Map.empty]) of
      Inl f \<Rightarrow> False
    | Inr w \<Rightarrow>
        get_key tbl9 row_z = Some [120, 156, 75, 4, 0, 0, 98, 0, 98] \<and>
        DB_Get (disk w) ''t'' [120, 156, 75, 4, 0, 0, 98, 0, 98] = Some row_z \<and>
        (case index_read 0 (replicate 16 0) [120, 156, 75, 4, 0, 0, 98, 0, 98] 9 (Some [97]) w of
           Inl f \<Rightarrow> False
         | Inr (rc, b, w') \<Rightarrow>
             rc = 0 \<and> b = [97, 156, 75, 4, 0, 0, 98, 0, 98, 0, 0, 0, 0, 0, 0, 0] \<and> b \<noteq> row_z))"
  by (simp add: init_world_def tbl9_def row_z_def ldb_open_def get_share_def leveldb_open_def
        DB_Open_def set_share_def external_lock_def write_row_def get_key_def mem_read_def
        batch_append_def drop_buf_def share_db_def host_consts DB_Write_def apply_batch_def
        free_trx_def index_read_def index_read_key_def DB_Get_def mem_write_def set_status_def)

text \<open>
  What does hold: when the handler that owns the scope has the table open, the row and the
  return buffer have the record length, and \<^verbatim>\<open>my_uncompress\<close> inflates a compressed
  value to the row and leaves a value stored as it is alone, then \<^verbatim>\<open>write_row\<close>, a
  successful unlock and the lookup of the row's key return the row.
\<close>

lemma roundtrip_when_inflate_agrees:
  assumes sd: "share_db w this = Inr p" and dk: "disk w p = Some m"
    and hd: "ha_data w cur = Some trx" and ow: "pobj trx = this"
    and gk: "get_key (table (handlers w this)) r = Some k"
    and lr: "length r = rec_buff_length (table (handlers w this))"
    and lb: "length buf = length r"
    and ik: "index_read_key (table (handlers w this)) key key_len = Some k"
    and ag: "case cans of Compressed c \<Rightarrow> length c \<le> length r \<and> uans = Some r
                        | Unchanged x \<Rightarrow> uans = None"
  shows "\<exists>r1 w1 w2 w3. write_row this r cans cur w = Inr (0, r1, w1) \<and>
           external_lock this F_UNLCK True cur w1 = Inr (0, w2) \<and>
           index_read this buf key key_len uans w2 = Inr (0, r, w3)"
proof -
  define v where "v = (case cans of Compressed c \<Rightarrow> c | Unchanged x \<Rightarrow> r)"
  define r1 where "r1 = (case cans of Compressed c \<Rightarrow> c @ drop (length c) r | Unchanged x \<Rightarrow> r)"
  define w1 where "w1 = w\<lparr> ha_data := (ha_data w)(cur := Some (trx\<lparr> batch := batch trx @ [Put k v] \<rparr>)) \<rparr>"
  define w2 where "w2 = free_trx (Some (trx\<lparr> batch := batch trx @ [Put k v] \<rparr>)) cur
               (w1\<lparr> disk := (disk w)(p \<mapsto> apply_batch (batch trx @ [Put k v]) m),
                     ldb_log := ldb_log w1 @ [Call_Write p (wo_sync w1) (batch trx @ [Put k v])] \<rparr>)"
  have wr: "write_row this r cans cur w = Inr (0, r1, w1)"
    using gk lr hd ag
    by (cases cans)
       (simp_all add: write_row_def mem_read_def mem_write_def batch_append_def v_def r1_def w1_def)
  have sd1: "share_db w1 this = Inr p"
    using sd share_db_frame [of w1 w this] by (simp add: w1_def)
  have hd1: "ha_data w1 cur = Some (trx\<lparr> batch := batch trx @ [Put k v] \<rparr>)"
    and dk1: "disk w1 = disk w"
    by (simp_all add: w1_def)
  have el: "external_lock this F_UNLCK True cur w1 = Inr (0, w2)"
    using sd1 ow dk by (simp add: external_lock_def hd1 dk1 DB_Write_def w2_def)
  have sd2: "share_db w2 this = Inr p"
    using sd share_db_frame [of w2 w this] by (simp add: w2_def w1_def free_trx_def)
  have g: "DB_Get (disk w2) p k = Some v"
    using apply_batch_put [of "[]" k "batch trx" v m]
    by (simp add: DB_Get_def w2_def free_trx_def)
  have tb: "table (handlers w2 this) = table (handlers w this)"
    by (simp add: w2_def w1_def free_trx_def)
  have un: "\<exists>b1. mem_write buf v = Some b1 \<and> my_uncompress b1 uans = Some r"
    using ag lb by (cases cans) (simp_all add: v_def mem_write_def)
  then obtain b1 where b1: "mem_write buf v = Some b1" "my_uncompress b1 uans = Some r" by blast
  have ir: "index_read this buf key key_len uans w2 = Inr (0, r, set_status this 0 w2)"
    by (simp add: index_read_def tb ik sd2 g b1)
  from wr el ir show ?thesis by blast
qed

end
